theory Spec2Isabelle
  imports Main
begin

section \<open>Data model of the code indexer\<close>

text \<open>
  The development embeds \<^verbatim>\<open>x-pack/plugins/code/server/indexer/lsp_indexer.ts\<close>.
  Asynchronous calls are sequential here: every \<^verbatim>\<open>await\<close> is a call whose result is
  either a value (\<open>Inr\<close>) or a thrown error (\<open>Inl\<close>).
\<close>

type_synonym RepositoryUri = string

type_synonym error = string

record LspIndexRequest =
  req_repoUri :: RepositoryUri
  req_localRepoPath :: string
  req_filePath :: string
  req_revision :: string

record Document =
  doc_repoUri :: RepositoryUri
  doc_path :: string
  doc_content :: string
  doc_language :: string
  doc_qnames :: "string list"

text \<open>
  Of a symbol the indexer reads only \<^verbatim>\<open>symbol.symbolInformation.name\<close>; the remaining
  fields travel in \<open>sym_detail\<close>. A reference is an opaque payload.
\<close>

record SymbolInformation =
  sym_name :: string

record DetailSymbolInformation =
  symbolInformation :: SymbolInformation
  sym_detail :: string

type_synonym Reference = string

record Full =
  symbols :: "DetailSymbolInformation list"
  references :: "Reference list"

record ResponseMessage =
  result :: "Full list"

datatype IndexStatsKey = Symbol | Reference | File

type_synonym IndexStats = "IndexStatsKey \<rightharpoonup> nat"

text \<open>
  Modelled from the spec: the schema module (\<^verbatim>\<open>./schema\<close>) is not among the sources. The
  three destination collections are scoped to the repository (documents, symbols,
  references), so an index name is the collection kind together with the repository.
\<close>

datatype index_name =
    SymbolIndexName RepositoryUri
  | ReferenceIndexName RepositoryUri
  | DocumentIndexName RepositoryUri

datatype body =
    SymbolBody DetailSymbolInformation
  | ReferenceBody Reference
  | DocumentBody Document

text \<open>The calls the indexer makes on its \<^verbatim>\<open>batchIndexHelper\<close>, in order.\<close>

datatype helper_call =
    HIndex index_name body
  | HFlush
  | HCancel

datatype log_entry =
    LogInfo string
  | LogDebug string
  | LogError string

text \<open>The query language of the delete-by-query requests built in \<^verbatim>\<open>cleanIndex\<close>.\<close>

datatype query =
    MatchAll
  | Exists string
  | BoolMustNot "query list"

text \<open>A stored entry of the search backend: its fields with their rendered values.\<close>

type_synonym es_doc = "(string \<times> string) list"

datatype run_state =
    Created
  | PreparingIndices
  | EnumeratingRequests
  | Processing
  | Completed
  | Cancelled
  | Failed

text \<open>
  A suspension of the pipeline at which an outside caller may invoke \<^verbatim>\<open>cancel()\<close>:
  schema preparation, enumeration, or the analysis request of the item with the given
  position.
\<close>

datatype suspension =
    AtPrepareIndices
  | AtEnumeration
  | AtItem nat

text \<open>
  The indexer object together with what it acts upon: the constructor arguments
  (\<open>repoUri\<close>, \<open>revision\<close>, the option \<open>enableGlobalReference\<close>), the cancellation flag of
  the abstract indexer, the calls received by the batch helper, the requests received by
  the backend client with the backend's collections, the log and the progress reports.
\<close>

record LspIndexer =
  repoUri :: RepositoryUri
  revision :: string
  enableGlobalReference :: bool
  cancelled :: bool
  run_state :: run_state
  batchIndexHelper :: "helper_call list"
  client_calls :: "(index_name \<times> query) list"
  store :: "index_name \<Rightarrow> es_doc list"
  logger :: "log_entry list"
  reported :: "(nat \<times> nat) list"

text \<open>
  The collaborators of the indexer, which are not part of the sources, as parameters:
  the workspace handler and support test of the language-analysis service, the file tree
  of the version-control system with \<^verbatim>\<open>RepositoryUtils.getAllFiles\<close>, the two language
  detectors, \<^verbatim>\<open>toCanonicalUrl\<close>, the analysis request, the three file-system calls, the
  outcome of a backend request, and the four reserved field names of the schema.
\<close>

record 't env =
  openWorkspace :: "RepositoryUri \<Rightarrow> string \<Rightarrow> error + (string \<times> string)"
  fileTree :: "RepositoryUri \<Rightarrow> string \<Rightarrow> string \<Rightarrow> nat \<Rightarrow> nat \<Rightarrow> bool \<Rightarrow> nat \<Rightarrow> error + 't"
  getAllFiles :: "'t \<Rightarrow> string list"
  detectLanguageByFilename :: "string \<Rightarrow> string option"
  supportLanguage :: "string \<Rightarrow> bool"
  toCanonicalUrl :: "RepositoryUri \<Rightarrow> string \<Rightarrow> string \<Rightarrow> string \<Rightarrow> string"
  sendRequest :: "string \<Rightarrow> string \<Rightarrow> bool \<Rightarrow> error + ResponseMessage option"
  lstat :: "string \<Rightarrow> error + bool"
  readlink :: "string \<Rightarrow> error + string"
  readFile :: "string \<Rightarrow> error + string"
  detectLanguage :: "string \<Rightarrow> string \<Rightarrow> string"
  deleteByQuery_error :: "index_name \<Rightarrow> query \<Rightarrow> error option"
  createIndex_error :: "index_name \<Rightarrow> error option"
  RepositoryReservedField :: string
  RepositoryGitStatusReservedField :: string
  RepositoryLspIndexStatusReservedField :: string
  RepositoryDeleteStatusReservedField :: string

section \<open>The batch helper and the log, as the indexer calls them\<close>

text \<open>
  Modelled from the spec: \<^verbatim>\<open>BatchIndexHelper\<close> is not among the sources. Its \<open>index\<close>
  enqueues one write and does not raise to the caller; here the call is recorded.
\<close>

definition helper_index :: "index_name \<Rightarrow> body \<Rightarrow> LspIndexer \<Rightarrow> LspIndexer" where
  "helper_index idx b st = st\<lparr>batchIndexHelper := batchIndexHelper st @ [HIndex idx b]\<rparr>"

definition helper_flush :: "LspIndexer \<Rightarrow> LspIndexer" where
  "helper_flush st = st\<lparr>batchIndexHelper := batchIndexHelper st @ [HFlush]\<rparr>"

definition helper_cancel :: "LspIndexer \<Rightarrow> LspIndexer" where
  "helper_cancel st = st\<lparr>batchIndexHelper := batchIndexHelper st @ [HCancel]\<rparr>"

definition log_entry :: "log_entry \<Rightarrow> LspIndexer \<Rightarrow> LspIndexer" where
  "log_entry l st = st\<lparr>logger := logger st @ [l]\<rparr>"

section \<open>processRequest\<close>

text \<open>\<^verbatim>\<open>Set.add\<close>: a JavaScript set keeps the order of first insertion.\<close>

definition set_add :: "string list \<Rightarrow> string \<Rightarrow> string list" where
  "set_add names n = (if n \<in> set names then names else names @ [n])"

text \<open>The loop over \<open>symbols\<close>: one \<open>index\<close> call and one \<open>symbolNames.add\<close> per symbol.\<close>

fun index_symbols ::
  "RepositoryUri \<Rightarrow> DetailSymbolInformation list \<Rightarrow> string list \<times> LspIndexer
    \<Rightarrow> string list \<times> LspIndexer" where
  "index_symbols uri [] (names, st) = (names, st)"
| "index_symbols uri (symbol # rest) (names, st) =
     index_symbols uri rest
       (set_add names (sym_name (symbolInformation symbol)),
        helper_index (SymbolIndexName uri) (SymbolBody symbol) st)"

text \<open>The loop over \<open>references\<close>.\<close>

fun index_references :: "RepositoryUri \<Rightarrow> Reference list \<Rightarrow> LspIndexer \<Rightarrow> LspIndexer" where
  "index_references uri [] st = st"
| "index_references uri (ref # rest) st =
     index_references uri rest (helper_index (ReferenceIndexName uri) (ReferenceBody ref) st)"

text \<open>The document identifier sent to the language-analysis service.\<close>

definition lspDocUri :: "'t env \<Rightarrow> LspIndexRequest \<Rightarrow> string" where
  "lspDocUri env request =
     toCanonicalUrl env (req_repoUri request) (req_revision request) (req_filePath request)
       ''git:''"

text \<open>The analysis request of \<open>processRequest\<close>, as \<^verbatim>\<open>sendRequest\<close> receives it.\<close>

definition textDocument_full ::
  "'t env \<Rightarrow> LspIndexRequest \<Rightarrow> LspIndexer \<Rightarrow> error + ResponseMessage option" where
  "textDocument_full env request st =
     sendRequest env ''textDocument/full'' (lspDocUri env request) (enableGlobalReference st)"

text \<open>
  The \<^verbatim>\<open>try\<close> block of \<open>processRequest\<close> with its \<^verbatim>\<open>catch\<close>: the analysis request and the
  buffering of the first result's symbols and references. It returns the statistics, the
  collected symbol names and the new state; it never raises.
\<close>

definition index_symbols_and_references ::
  "'t env \<Rightarrow> LspIndexRequest \<Rightarrow> IndexStats \<Rightarrow> LspIndexer
    \<Rightarrow> IndexStats \<times> string list \<times> LspIndexer" where
  "index_symbols_and_references env request stats st =
     (case textDocument_full env request st of
        Inl e \<Rightarrow>
          (stats, [],
           log_entry (LogError e)
             (log_entry (LogError ''Index symbols or references error. Skip to file indexing.'') st))
      | Inr None \<Rightarrow>
          (stats, [],
           log_entry
             (LogDebug ''Empty response from lsp server. Skip symbols and references indexing.'') st)
      | Inr (Some response) \<Rightarrow>
          (case result response of
             [] \<Rightarrow>
               (stats, [],
                log_entry
                  (LogDebug ''Empty response from lsp server. Skip symbols and references indexing.'')
                  st)
           | first # _ \<Rightarrow>
               (let (names, st1) = index_symbols (req_repoUri request) (symbols first) ([], st);
                    stats1 = stats(Symbol \<mapsto> length (symbols first));
                    st2 = index_references (req_repoUri request) (references first) st1;
                    stats2 = stats1(Reference \<mapsto> length (references first))
                in (stats2, names, st2))))"

text \<open>
  The file read of \<open>processRequest\<close>: \<^verbatim>\<open>lstat\<close>, then \<^verbatim>\<open>readlink\<close> for a symbolic link and
  \<^verbatim>\<open>readFile\<close> otherwise. An error of either call is the error of the read.
\<close>

definition read_content :: "'t env \<Rightarrow> string \<Rightarrow> error + string" where
  "read_content env localFilePath =
     (case lstat env localFilePath of
        Inl e \<Rightarrow> Inl e
      | Inr isSymbolicLink \<Rightarrow>
          (if isSymbolicLink then readlink env localFilePath else readFile env localFilePath))"

definition localFilePath :: "LspIndexRequest \<Rightarrow> string" where
  "localFilePath request = req_localRepoPath request @ req_filePath request"

definition processRequest ::
  "'t env \<Rightarrow> LspIndexRequest \<Rightarrow> LspIndexer \<Rightarrow> (error + IndexStats) \<times> LspIndexer" where
  "processRequest env request st =
     (let stats = [Symbol \<mapsto> 0, Reference \<mapsto> 0, File \<mapsto> 0];
          (stats1, symbolNames, st1) = index_symbols_and_references env request stats st
      in case read_content env (localFilePath request) of
           Inl e \<Rightarrow> (Inl e, st1)
         | Inr content \<Rightarrow>
             (let language = detectLanguage env (req_filePath request) content;
                  body = \<lparr>doc_repoUri = req_repoUri request,
                          doc_path = req_filePath request,
                          doc_content = content,
                          doc_language = language,
                          doc_qnames = symbolNames\<rparr>;
                  st2 = helper_index (DocumentIndexName (req_repoUri request))
                          (DocumentBody body) st1
              in (Inr (stats1(File \<mapsto> 1)), st2)))"

section \<open>prepareRequests\<close>

definition MAX_SAFE_INTEGER :: nat where
  "MAX_SAFE_INTEGER = 9007199254740991"

text \<open>
  The callback of \<^verbatim>\<open>filter\<close>: \<^verbatim>\<open>lang && this.lspService.supportLanguage(lang)\<close>. A missing
  language and the empty string are both falsy.
\<close>

definition supported_file :: "'t env \<Rightarrow> string \<Rightarrow> bool" where
  "supported_file env filePath =
     (case detectLanguageByFilename env filePath of
        None \<Rightarrow> False
      | Some lang \<Rightarrow> lang \<noteq> [] \<and> supportLanguage env lang)"

text \<open>The \<^verbatim>\<open>catch\<close> block of \<open>prepareRequests\<close>: log twice, then rethrow.\<close>

definition prepareRequests_rethrow ::
  "error \<Rightarrow> LspIndexer \<Rightarrow> (error + LspIndexRequest list) \<times> LspIndexer" where
  "prepareRequests_rethrow e st =
     (Inl e,
      log_entry (LogError e) (log_entry (LogError ''Prepare lsp indexing requests error.'') st))"

definition prepareRequests ::
  "'t env \<Rightarrow> LspIndexer \<Rightarrow> (error + LspIndexRequest list) \<times> LspIndexer" where
  "prepareRequests env st =
     (case openWorkspace env (repoUri st) ''head'' of
        Inl e \<Rightarrow> prepareRequests_rethrow e st
      | Inr (workspaceDir, workspaceRevision) \<Rightarrow>
          (case fileTree env (repoUri st) [] ''HEAD'' 0 MAX_SAFE_INTEGER False MAX_SAFE_INTEGER of
             Inl e \<Rightarrow> prepareRequests_rethrow e st
           | Inr tree \<Rightarrow>
               (Inr (map (\<lambda>filePath.
                            \<lparr>req_repoUri = repoUri st,
                             req_localRepoPath = workspaceDir,
                             req_filePath = filePath,
                             req_revision = workspaceRevision\<rparr>)
                       (filter (supported_file env) (getAllFiles env tree))),
                st)))"

text \<open>
  Enumeration as the specification words it, for comparison with the code: the working
  copy is opened, and its file tree walked, at the target revision of the run.
\<close>

definition prepareRequests_spec ::
  "'t env \<Rightarrow> LspIndexer \<Rightarrow> (error + LspIndexRequest list) \<times> LspIndexer" where
  "prepareRequests_spec env st =
     (case openWorkspace env (repoUri st) (revision st) of
        Inl e \<Rightarrow> prepareRequests_rethrow e st
      | Inr (workspaceDir, workspaceRevision) \<Rightarrow>
          (case fileTree env (repoUri st) [] (revision st) 0 MAX_SAFE_INTEGER False
                  MAX_SAFE_INTEGER of
             Inl e \<Rightarrow> prepareRequests_rethrow e st
           | Inr tree \<Rightarrow>
               (Inr (map (\<lambda>filePath.
                            \<lparr>req_repoUri = repoUri st,
                             req_localRepoPath = workspaceDir,
                             req_filePath = filePath,
                             req_revision = workspaceRevision\<rparr>)
                       (filter (supported_file env) (getAllFiles env tree))),
                st)))"

section \<open>cleanIndex\<close>

text \<open>
  Modelled from the spec: the delete-by-query interface of the search backend, which is
  outside the sources. A query matches every entry (\<open>match_all\<close>), the entries carrying a
  field (\<open>exists\<close>), or the entries that none of the listed queries matches
  (\<open>bool.must_not\<close>). A request that succeeds removes the matching entries of the
  collection; a request that fails removes nothing and raises.
\<close>

fun matches :: "query \<Rightarrow> es_doc \<Rightarrow> bool" where
  "matches MatchAll d = True"
| "matches (Exists f) d = (f \<in> set (map fst d))"
| "matches (BoolMustNot qs) d = (\<not> list_ex (\<lambda>q. matches q d) qs)"

definition deleteByQuery ::
  "'t env \<Rightarrow> index_name \<Rightarrow> query \<Rightarrow> LspIndexer \<Rightarrow> (error + unit) \<times> LspIndexer" where
  "deleteByQuery env idx q st =
     (let st1 = st\<lparr>client_calls := client_calls st @ [(idx, q)]\<rparr>
      in case deleteByQuery_error env idx q of
           Some e \<Rightarrow> (Inl e, st1)
         | None \<Rightarrow>
             (Inr (),
              st1\<lparr>store := (store st1)(idx := filter (\<lambda>d. \<not> matches q d) (store st1 idx))\<rparr>))"

text \<open>The query of the third deletion of \<open>cleanIndex\<close>.\<close>

definition document_cleanup_query :: "'t env \<Rightarrow> query" where
  "document_cleanup_query env =
     BoolMustNot
       [Exists (RepositoryReservedField env),
        Exists (RepositoryGitStatusReservedField env),
        Exists (RepositoryLspIndexStatusReservedField env),
        Exists (RepositoryDeleteStatusReservedField env)]"

text \<open>One \<^verbatim>\<open>try\<close>/\<^verbatim>\<open>catch\<close> of \<open>cleanIndex\<close>: the deletion, then its log lines.\<close>

definition clean_up ::
  "'t env \<Rightarrow> string \<Rightarrow> RepositoryUri \<Rightarrow> index_name \<Rightarrow> query \<Rightarrow> LspIndexer \<Rightarrow> LspIndexer" where
  "clean_up env what uri idx q st =
     (case deleteByQuery env idx q st of
        (Inr _, st1) \<Rightarrow>
          log_entry (LogInfo (''Clean up '' @ what @ '' for '' @ uri @ '' done.'')) st1
      | (Inl e, st1) \<Rightarrow>
          log_entry (LogError e)
            (log_entry (LogError (''Clean up '' @ what @ '' for '' @ uri @ '' error.'')) st1))"

definition cleanIndex ::
  "'t env \<Rightarrow> RepositoryUri \<Rightarrow> LspIndexer \<Rightarrow> (error + unit) \<times> LspIndexer" where
  "cleanIndex env uri st =
     (let st1 = clean_up env ''symbols'' uri (SymbolIndexName uri) MatchAll st;
          st2 = clean_up env ''references'' uri (ReferenceIndexName uri) MatchAll st1;
          st3 = clean_up env ''documents'' uri (DocumentIndexName uri)
                  (document_cleanup_query env) st2
      in (Inr (), st3))"

section \<open>cancel and start\<close>

text \<open>
  Modelled from the spec: \<^verbatim>\<open>AbstractIndexer\<close> is not among the sources. Its \<open>cancel\<close> sets
  the cancellation flag, which \<open>isCancelled\<close> reads.
\<close>

definition AbstractIndexer_cancel :: "LspIndexer \<Rightarrow> LspIndexer" where
  "AbstractIndexer_cancel st = st\<lparr>cancelled := True\<rparr>"

definition isCancelled :: "LspIndexer \<Rightarrow> bool" where
  "isCancelled st = cancelled st"

definition cancel :: "LspIndexer \<Rightarrow> LspIndexer" where
  "cancel st = AbstractIndexer_cancel (helper_cancel st)"

text \<open>
  An outside caller invokes \<open>cancel\<close> at the suspensions the schedule names. Cancellation
  is cooperative: a \<open>cancel\<close> that arrives while an item is in flight takes effect on the
  batch helper at once and on the loop at its next check.
\<close>

definition arrive :: "(suspension \<Rightarrow> bool) \<Rightarrow> suspension \<Rightarrow> LspIndexer \<Rightarrow> LspIndexer" where
  "arrive sched p st = (if sched p then cancel st else st)"

text \<open>
  \<open>prepareIndexCreationRequests\<close>: one creation request per collection, each standing for
  the collection it creates.
\<close>

definition prepareIndexCreationRequests :: "LspIndexer \<Rightarrow> index_name list" where
  "prepareIndexCreationRequests st =
     [DocumentIndexName (repoUri st), ReferenceIndexName (repoUri st),
      SymbolIndexName (repoUri st)]"

text \<open>
  Modelled from the spec: the lifecycle of \<^verbatim>\<open>AbstractIndexer.start\<close> (section 4.2), which
  is not among the sources. Schema preparation applies the creation requests and is
  fatal when one fails. Enumeration is fatal when it fails. Processing walks the work
  items in order: before each item the cancellation flag is checked; a processed item's
  statistics are merged into the run's statistics; a failed item is logged and counts
  nothing; progress is reported after each item.
\<close>

fun prepareIndex :: "'t env \<Rightarrow> index_name list \<Rightarrow> error + unit" where
  "prepareIndex env [] = Inr ()"
| "prepareIndex env (r # rs) =
     (case createIndex_error env r of
        Some e \<Rightarrow> Inl e
      | None \<Rightarrow> prepareIndex env rs)"

definition merge_count :: "nat option \<Rightarrow> nat option \<Rightarrow> nat option" where
  "merge_count a b =
     (case a of
        None \<Rightarrow> b
      | Some x \<Rightarrow> (case b of None \<Rightarrow> Some x | Some y \<Rightarrow> Some (x + y)))"

definition aggregateIndexStats :: "IndexStats \<Rightarrow> IndexStats \<Rightarrow> IndexStats" where
  "aggregateIndexStats a b = (\<lambda>k. merge_count (a k) (b k))"

fun process_requests ::
  "'t env \<Rightarrow> (suspension \<Rightarrow> bool) \<Rightarrow> nat \<Rightarrow> nat \<Rightarrow> LspIndexRequest list \<Rightarrow> IndexStats
    \<Rightarrow> LspIndexer \<Rightarrow> IndexStats \<times> LspIndexer" where
  "process_requests env sched totalCount k [] runStats st = (runStats, st\<lparr>run_state := Completed\<rparr>)"
| "process_requests env sched totalCount k (req # rest) runStats st =
     (if isCancelled st then (runStats, st\<lparr>run_state := Cancelled\<rparr>)
      else
        (case processRequest env req (arrive sched (AtItem k) st) of
           (Inr stats, st1) \<Rightarrow>
             process_requests env sched totalCount (Suc k) rest (aggregateIndexStats runStats stats)
               (st1\<lparr>reported := reported st1 @ [(Suc k, totalCount)]\<rparr>)
         | (Inl e, st1) \<Rightarrow>
             process_requests env sched totalCount (Suc k) rest runStats
               ((log_entry (LogError e) st1)\<lparr>reported := reported st1 @ [(Suc k, totalCount)]\<rparr>)))"

definition AbstractIndexer_start ::
  "'t env \<Rightarrow> (suspension \<Rightarrow> bool) \<Rightarrow> LspIndexer \<Rightarrow> (error + IndexStats) \<times> LspIndexer" where
  "AbstractIndexer_start env sched st =
     (let st1 = arrive sched AtPrepareIndices (st\<lparr>run_state := PreparingIndices\<rparr>)
      in case prepareIndex env (prepareIndexCreationRequests st1) of
           Inl e \<Rightarrow> (Inl e, st1\<lparr>run_state := Failed\<rparr>)
         | Inr _ \<Rightarrow>
             (case prepareRequests env
                     (arrive sched AtEnumeration (st1\<lparr>run_state := EnumeratingRequests\<rparr>)) of
                (Inl e, st2) \<Rightarrow> (Inl e, st2\<lparr>run_state := Failed\<rparr>)
              | (Inr reqs, st2) \<Rightarrow>
                  (case process_requests env sched (length reqs) 0 reqs
                          [Symbol \<mapsto> 0, Reference \<mapsto> 0, File \<mapsto> 0]
                          (st2\<lparr>run_state := Processing\<rparr>) of
                     (stats, st3) \<Rightarrow> (Inr stats, st3))))"

text \<open>
  \<open>start\<close> of the source: the inherited \<open>start\<close> inside \<^verbatim>\<open>try\<close>, and in \<^verbatim>\<open>finally\<close> the flush
  of the batch helper unless the indexer is cancelled. The result of the inherited \<open>start\<close>,
  value or error, is passed on.
\<close>

definition start ::
  "'t env \<Rightarrow> (suspension \<Rightarrow> bool) \<Rightarrow> LspIndexer \<Rightarrow> (error + IndexStats) \<times> LspIndexer" where
  "start env sched st =
     (case AbstractIndexer_start env sched st of
        (res, st1) \<Rightarrow> (res, if \<not> isCancelled st1 then helper_flush st1 else st1))"

text \<open>The constructor: a fresh indexer, not cancelled, with a fresh batch helper.\<close>

definition new_LspIndexer ::
  "RepositoryUri \<Rightarrow> string \<Rightarrow> bool \<Rightarrow> (index_name \<Rightarrow> es_doc list) \<Rightarrow> LspIndexer" where
  "new_LspIndexer uri target globalRef backend =
     \<lparr>repoUri = uri, revision = target, enableGlobalReference = globalRef, cancelled = False,
      run_state = Created, batchIndexHelper = [], client_calls = [], store = backend,
      logger = [], reported = []\<rparr>"

section \<open>The batch write buffer\<close>

text \<open>
  Modelled from the spec: \<^verbatim>\<open>BatchIndexHelper\<close> (section 4.1), which is not among the
  sources. \<open>index\<close> enqueues one write, a no-op after \<open>cancel\<close>, and flushes once the
  buffer reaches the configured size; \<open>flush\<close> sends the queued writes as one bulk
  operation per destination collection and empties the buffer; \<open>cancel\<close> discards the
  buffer and suppresses every later write.
\<close>

record BatchIndexHelper =
  batch :: "(index_name \<times> body) list"
  helper_cancelled :: bool
  bulks :: "(index_name \<times> body list) list"

definition new_BatchIndexHelper :: BatchIndexHelper where
  "new_BatchIndexHelper = \<lparr>batch = [], helper_cancelled = False, bulks = []\<rparr>"

definition group_by_destination :: "(index_name \<times> body) list \<Rightarrow> (index_name \<times> body list) list" where
  "group_by_destination entries =
     map (\<lambda>idx. (idx, map snd (filter (\<lambda>entry. fst entry = idx) entries)))
       (remdups (map fst entries))"

definition buffer_flush :: "BatchIndexHelper \<Rightarrow> BatchIndexHelper" where
  "buffer_flush h =
     (if helper_cancelled h then h
      else h\<lparr>bulks := bulks h @ group_by_destination (batch h), batch := []\<rparr>)"

fun buffer_call :: "nat \<Rightarrow> BatchIndexHelper \<Rightarrow> helper_call \<Rightarrow> BatchIndexHelper" where
  "buffer_call batchSize h (HIndex idx b) =
     (if helper_cancelled h then h
      else
        (let h1 = h\<lparr>batch := batch h @ [(idx, b)]\<rparr>
         in if batchSize \<le> length (batch h1) then buffer_flush h1 else h1))"
| "buffer_call batchSize h HFlush = buffer_flush h"
| "buffer_call batchSize h HCancel = h\<lparr>batch := [], helper_cancelled := True\<rparr>"

definition buffer_after :: "nat \<Rightarrow> helper_call list \<Rightarrow> BatchIndexHelper" where
  "buffer_after batchSize calls = foldl (buffer_call batchSize) new_BatchIndexHelper calls"

section \<open>Notions used in the statements\<close>

text \<open>The writes that the two loops of \<open>processRequest\<close> hand to the batch helper.\<close>

definition symbol_writes :: "RepositoryUri \<Rightarrow> DetailSymbolInformation list \<Rightarrow> helper_call list" where
  "symbol_writes uri syms = map (\<lambda>s. HIndex (SymbolIndexName uri) (SymbolBody s)) syms"

definition reference_writes :: "RepositoryUri \<Rightarrow> Reference list \<Rightarrow> helper_call list" where
  "reference_writes uri refs = map (\<lambda>r. HIndex (ReferenceIndexName uri) (ReferenceBody r)) refs"

text \<open>The analysis request raised an error, or returned nothing or an empty result.\<close>

definition analysis_failed :: "'t env \<Rightarrow> LspIndexRequest \<Rightarrow> LspIndexer \<Rightarrow> bool" where
  "analysis_failed env request st =
     (case textDocument_full env request st of
        Inl e \<Rightarrow> True
      | Inr None \<Rightarrow> True
      | Inr (Some response) \<Rightarrow> result response = [])"

text \<open>
  The calls the batch helper received between two states of one execution, and the
  documents among a list of calls.
\<close>

definition calls_during :: "LspIndexer \<Rightarrow> LspIndexer \<Rightarrow> helper_call list" where
  "calls_during st st' = drop (length (batchIndexHelper st)) (batchIndexHelper st')"

fun documents_written :: "helper_call list \<Rightarrow> Document list" where
  "documents_written [] = []"
| "documents_written (HIndex idx (DocumentBody d) # cs) = d # documents_written cs"
| "documents_written (c # cs) = documents_written cs"

text \<open>An entry of the document collection carries one of the reserved fields.\<close>

definition carries_reserved_field :: "'t env \<Rightarrow> es_doc \<Rightarrow> bool" where
  "carries_reserved_field env d =
     (RepositoryReservedField env \<in> set (map fst d)
      \<or> RepositoryGitStatusReservedField env \<in> set (map fst d)
      \<or> RepositoryLspIndexStatusReservedField env \<in> set (map fst d)
      \<or> RepositoryDeleteStatusReservedField env \<in> set (map fst d))"

text \<open>
  A call of \<open>index\<close> on the batch helper; and the relation between an earlier and a later
  state of one execution in which the helper received no \<open>flush\<close> and the cancellation
  flag was raised only together with a \<open>cancel\<close> of the helper.
\<close>

fun is_index :: "helper_call \<Rightarrow> bool" where
  "is_index (HIndex idx b) = True"
| "is_index c = False"

definition continues :: "LspIndexer \<Rightarrow> LspIndexer \<Rightarrow> bool" where
  "continues st st' \<longleftrightarrow>
     repoUri st' = repoUri st \<and>
     (\<exists>new. batchIndexHelper st' = batchIndexHelper st @ new \<and> HFlush \<notin> set new
        \<and> (cancelled st' \<longleftrightarrow> cancelled st \<or> HCancel \<in> set new))"

section \<open>An example repository\<close>

text \<open>
  A working copy with a regular file \<open>a.ts\<close> whose analysis returns two results, a file
  \<open>b.ts\<close> whose analysis fails, a symbolic link \<open>link.ts\<close> with an empty analysis result,
  a file \<open>gone.ts\<close> that cannot be read, and a \<open>README\<close> without a language.
\<close>

definition example_symbol :: "string \<Rightarrow> DetailSymbolInformation" where
  "example_symbol n = \<lparr>symbolInformation = \<lparr>sym_name = n\<rparr>, sym_detail = []\<rparr>"

definition example_response :: ResponseMessage where
  "example_response =
     \<lparr>result =
        [\<lparr>symbols = [example_symbol ''f'', example_symbol ''g'', example_symbol ''f''],
          references = [''f@3'']\<rparr>,
         \<lparr>symbols = [example_symbol ''h''], references = [''h@7'', ''h@9'']\<rparr>]\<rparr>"

definition example_env :: "string list env" where
  "example_env =
     \<lparr>openWorkspace = (\<lambda>uri ref. if ref = ''head'' then Inr (''/ws/'', ''rev1'')
                                   else Inr (''/old/'', ''rev0'')),
      fileTree = (\<lambda>uri path ref skip limit parents depth.
                    if ref = ''HEAD'' then Inr [''a.ts'', ''README'', ''b.ts'', ''link.ts'']
                    else Inr [''old.ts'']),
      getAllFiles = (\<lambda>tree. tree),
      detectLanguageByFilename = (\<lambda>p. if p = ''README'' then None else Some ''typescript''),
      supportLanguage = (\<lambda>lang. lang = ''typescript''),
      toCanonicalUrl = (\<lambda>uri rev file schema. file),
      sendRequest = (\<lambda>method uri reference.
                       if uri = ''a.ts'' \<or> uri = ''gone.ts'' then Inr (Some example_response)
                       else if uri = ''link.ts'' then Inr (Some \<lparr>result = []\<rparr>)
                       else Inl ''analysis failed''),
      lstat = (\<lambda>p. if p = ''/ws/link.ts'' then Inr True
                     else if p = ''/ws/gone.ts'' then Inl ''ENOENT''
                     else Inr False),
      readlink = (\<lambda>p. Inr ''a.ts''),
      readFile = (\<lambda>p. Inr ''let x = 1''),
      detectLanguage = (\<lambda>p content. ''typescript''),
      deleteByQuery_error = (\<lambda>idx q. None),
      createIndex_error = (\<lambda>idx. None),
      RepositoryReservedField = ''repository'',
      RepositoryGitStatusReservedField = ''repository_git_status'',
      RepositoryLspIndexStatusReservedField = ''repository_lsp_index_status'',
      RepositoryDeleteStatusReservedField = ''repository_delete_status''\<rparr>"

definition example_store :: "index_name \<Rightarrow> es_doc list" where
  "example_store idx =
     (if idx = DocumentIndexName ''repo''
      then [[(''repository'', ''repo'')], [(''path'', ''a.ts''), (''content'', ''let x = 1'')],
            [(''repository_git_status'', ''done'')], [(''path'', ''b.ts'')]]
      else if idx = SymbolIndexName ''repo'' then [[(''qname'', ''f'')]]
      else [])"

definition example_indexer :: LspIndexer where
  "example_indexer = new_LspIndexer ''repo'' ''v1'' True example_store"

definition example_request :: "string \<Rightarrow> LspIndexRequest" where
  "example_request p =
     \<lparr>req_repoUri = ''repo'', req_localRepoPath = ''/ws/'', req_filePath = p,
      req_revision = ''rev1''\<rparr>"

text \<open>
  The example working copy with \<open>b.ts\<close>, whose analysis fails, missing from the disk; the
  schedule without any \<open>cancel\<close>; and the \<open>File\<close> counter of the result of a run.
\<close>

definition unreadable_env :: "string list env" where
  "unreadable_env =
     example_env\<lparr>lstat := (\<lambda>p. if p = ''/ws/b.ts'' then Inl ''ENOENT'' else Inr False)\<rparr>"

definition no_cancel :: "suspension \<Rightarrow> bool" where
  "no_cancel p = False"

definition file_count :: "error + IndexStats \<Rightarrow> nat option" where
  "file_count res = (case res of Inl e \<Rightarrow> None | Inr stats \<Rightarrow> stats File)"

lemmas example_defs =
  example_env_def example_request_def example_indexer_def new_LspIndexer_def
  example_response_def example_symbol_def textDocument_full_def lspDocUri_def
  localFilePath_def read_content_def

lemmas run_defs =
  start_def AbstractIndexer_start_def prepareIndexCreationRequests_def prepareRequests_def
  supported_file_def processRequest_def index_symbols_and_references_def helper_index_def
  helper_flush_def helper_cancel_def cancel_def AbstractIndexer_cancel_def arrive_def
  isCancelled_def log_entry_def aggregateIndexStats_def merge_count_def MAX_SAFE_INTEGER_def

section \<open>Properties of processRequest\<close>

lemma index_symbols_eq:
  "index_symbols uri syms (names, st) =
     (foldl set_add names (map (\<lambda>s. sym_name (symbolInformation s)) syms),
      st\<lparr>batchIndexHelper := batchIndexHelper st @ symbol_writes uri syms\<rparr>)"
  by (induction syms arbitrary: names st) (simp_all add: helper_index_def symbol_writes_def)

lemma index_references_eq:
  "index_references uri refs st =
     st\<lparr>batchIndexHelper := batchIndexHelper st @ reference_writes uri refs\<rparr>"
  by (induction refs arbitrary: st) (simp_all add: helper_index_def reference_writes_def)

lemma set_foldl_set_add: "set (foldl set_add names ns) = set names \<union> set ns"
  by (induction ns arbitrary: names) (auto simp: set_add_def)

lemma distinct_foldl_set_add: "distinct names \<Longrightarrow> distinct (foldl set_add names ns)"
  by (induction ns arbitrary: names) (auto simp: set_add_def)

lemma analysis_success:
  assumes "textDocument_full env request st = Inr (Some response)"
    and "result response = first # others"
  shows "index_symbols_and_references env request stats st =
     (stats(Symbol \<mapsto> length (symbols first), Reference \<mapsto> length (references first)),
      foldl set_add [] (map (\<lambda>s. sym_name (symbolInformation s)) (symbols first)),
      st\<lparr>batchIndexHelper :=
           batchIndexHelper st @ symbol_writes (req_repoUri request) (symbols first)
             @ reference_writes (req_repoUri request) (references first)\<rparr>)"
  using assms
  by (simp add: index_symbols_and_references_def index_symbols_eq index_references_eq)

lemma analysis_failure:
  assumes "analysis_failed env request st"
  shows "\<exists>st1. index_symbols_and_references env request stats st = (stats, [], st1)
     \<and> batchIndexHelper st1 = batchIndexHelper st \<and> cancelled st1 = cancelled st"
  using assms
  by (auto simp: analysis_failed_def index_symbols_and_references_def log_entry_def
      split: sum.splits option.splits list.splits)

lemma stats_all:
  "[Symbol \<mapsto> 0, Reference \<mapsto> 0, File \<mapsto> 0](Symbol \<mapsto> n, Reference \<mapsto> m, File \<mapsto> k)
     = [Symbol \<mapsto> n, Reference \<mapsto> m, File \<mapsto> k]"
  by (rule ext) simp

lemma documents_written_append:
  "documents_written (xs @ ys) = documents_written xs @ documents_written ys"
  by (induction xs rule: documents_written.induct) simp_all

lemma documents_written_symbol_writes: "documents_written (symbol_writes uri syms) = []"
  by (induction syms) (simp_all add: symbol_writes_def)

lemma documents_written_reference_writes: "documents_written (reference_writes uri refs) = []"
  by (induction refs) (simp_all add: reference_writes_def)

lemma analysis_calls:
  "\<exists>new. batchIndexHelper (snd (snd (index_symbols_and_references env request stats st)))
       = batchIndexHelper st @ new \<and> documents_written new = []"
proof (cases "analysis_failed env request st")
  case True
  from analysis_failure [OF True, of stats] show ?thesis by auto
next
  case False
  then obtain response first others where
    "textDocument_full env request st = Inr (Some response)" "result response = first # others"
    by (auto simp: analysis_failed_def neq_Nil_conv split: sum.splits option.splits)
  from analysis_success [OF this, of stats] show ?thesis
    by (simp add: documents_written_append documents_written_symbol_writes
        documents_written_reference_writes)
qed

lemma read_content_Inl_iff:
  "read_content env p = Inl e \<longleftrightarrow>
     lstat env p = Inl e
     \<or> (lstat env p = Inr True \<and> readlink env p = Inl e)
     \<or> (lstat env p = Inr False \<and> readFile env p = Inl e)"
  by (auto simp: read_content_def split: sum.splits)

lemma processRequest_read_error:
  assumes "read_content env (localFilePath request) = Inl e"
  shows "processRequest env request st =
    (Inl e, snd (snd (index_symbols_and_references env request
        [Symbol \<mapsto> 0, Reference \<mapsto> 0, File \<mapsto> 0] st)))"
  using assms by (simp add: processRequest_def split: prod.splits)

lemma processRequest_read_ok:
  assumes "read_content env (localFilePath request) = Inr content"
  shows "processRequest env request st =
    (Inr ((fst (index_symbols_and_references env request
              [Symbol \<mapsto> 0, Reference \<mapsto> 0, File \<mapsto> 0] st))(File \<mapsto> 1)),
     helper_index (DocumentIndexName (req_repoUri request))
       (DocumentBody \<lparr>doc_repoUri = req_repoUri request, doc_path = req_filePath request,
          doc_content = content,
          doc_language = detectLanguage env (req_filePath request) content,
          doc_qnames = fst (snd (index_symbols_and_references env request
              [Symbol \<mapsto> 0, Reference \<mapsto> 0, File \<mapsto> 0] st))\<rparr>)
       (snd (snd (index_symbols_and_references env request
              [Symbol \<mapsto> 0, Reference \<mapsto> 0, File \<mapsto> 0] st))))"
  using assms by (simp add: processRequest_def split: prod.splits)

lemma read_content_ok:
  assumes "lstat env (req_localRepoPath request @ req_filePath request) = Inr isLink"
    and "(if isLink then readlink env (req_localRepoPath request @ req_filePath request)
          else readFile env (req_localRepoPath request @ req_filePath request)) = Inr content"
  shows "read_content env (localFilePath request) = Inr content"
  using assms by (simp add: read_content_def localFilePath_def)

text \<open>
  Claim C6, as amended. When the analysis request of an item succeeds with a non-empty
  result whose first element carries the symbols \<open>S\<close> and the references \<open>R\<close>,
  \<open>processRequest\<close> first hands the batch helper one write to the symbols collection per
  element of \<open>S\<close>, then one write to the references collection per element of \<open>R\<close>.
  When moreover the file can be read from the working copy (\<^verbatim>\<open>lstat\<close> succeeds, and then
  \<^verbatim>\<open>readlink\<close> for a link or \<^verbatim>\<open>readFile\<close> otherwise), the only further write is the
  Document with the content read, the statistics returned are
  \<open>{Symbol: |S|, Reference: |R|, File: 1}\<close>, and the \<open>qnames\<close> of the Document are the
  names \<^verbatim>\<open>symbolInformation.name\<close> of the symbols in \<open>S\<close>, each once.
\<close>

theorem processRequest_first_result:
  assumes "textDocument_full env request st = Inr (Some response)"
    and "result response = first # others"
  shows "(\<exists>tail. calls_during st (snd (processRequest env request st)) =
            symbol_writes (req_repoUri request) (symbols first)
              @ reference_writes (req_repoUri request) (references first) @ tail)
    \<and> (lstat env (req_localRepoPath request @ req_filePath request) = Inr isLink
        \<and> (if isLink then readlink env (req_localRepoPath request @ req_filePath request)
            else readFile env (req_localRepoPath request @ req_filePath request)) = Inr content
        \<longrightarrow>
        (\<exists>qnames.
            fst (processRequest env request st) =
              Inr [Symbol \<mapsto> length (symbols first), Reference \<mapsto> length (references first),
                   File \<mapsto> 1]
          \<and> calls_during st (snd (processRequest env request st)) =
              symbol_writes (req_repoUri request) (symbols first)
                @ reference_writes (req_repoUri request) (references first)
                @ [HIndex (DocumentIndexName (req_repoUri request))
                     (DocumentBody \<lparr>doc_repoUri = req_repoUri request,
                        doc_path = req_filePath request, doc_content = content,
                        doc_language = detectLanguage env (req_filePath request) content,
                        doc_qnames = qnames\<rparr>)]
          \<and> set qnames = (\<lambda>s. sym_name (symbolInformation s)) ` set (symbols first)
          \<and> distinct qnames))"
proof -
  let ?q = "foldl set_add [] (map (\<lambda>s. sym_name (symbolInformation s)) (symbols first))"
  let ?sw = "symbol_writes (req_repoUri request) (symbols first)"
  let ?rw = "reference_writes (req_repoUri request) (references first)"
  let ?doc = "\<lambda>content. HIndex (DocumentIndexName (req_repoUri request))
                     (DocumentBody \<lparr>doc_repoUri = req_repoUri request,
                        doc_path = req_filePath request, doc_content = content,
                        doc_language = detectLanguage env (req_filePath request) content,
                        doc_qnames = ?q\<rparr>)"
  note a = analysis_success [OF assms]
  have q: "set ?q = (\<lambda>s. sym_name (symbolInformation s)) ` set (symbols first)" "distinct ?q"
    by (simp_all add: set_foldl_set_add distinct_foldl_set_add)
  have ok: "fst (processRequest env request st) =
        Inr [Symbol \<mapsto> length (symbols first), Reference \<mapsto> length (references first),
             File \<mapsto> 1]
      \<and> calls_during st (snd (processRequest env request st)) = ?sw @ ?rw @ [?doc c]"
    if r: "read_content env (localFilePath request) = Inr c" for c
  proof -
    have "fst (processRequest env request st) =
        Inr [Symbol \<mapsto> length (symbols first), Reference \<mapsto> length (references first),
             File \<mapsto> 1]"
      using stats_all [of "length (symbols first)" "length (references first)" 1]
      by (simp add: processRequest_read_ok [OF r] a del: fun_upd_apply)
    moreover have "calls_during st (snd (processRequest env request st)) = ?sw @ ?rw @ [?doc c]"
      by (simp add: processRequest_read_ok [OF r] a helper_index_def calls_during_def)
    ultimately show ?thesis by simp
  qed
  have 1: "\<exists>tail. calls_during st (snd (processRequest env request st)) = ?sw @ ?rw @ tail"
  proof (cases "read_content env (localFilePath request)")
    case (Inl e)
    have "calls_during st (snd (processRequest env request st)) = ?sw @ ?rw @ []"
      by (simp add: processRequest_read_error [OF Inl] a calls_during_def)
    then show ?thesis by (rule exI)
  next
    case (Inr c)
    from ok [OF Inr] show ?thesis by blast
  qed
  have 2: "\<exists>qnames.
            fst (processRequest env request st) =
              Inr [Symbol \<mapsto> length (symbols first), Reference \<mapsto> length (references first),
                   File \<mapsto> 1]
          \<and> calls_during st (snd (processRequest env request st)) =
              ?sw @ ?rw
                @ [HIndex (DocumentIndexName (req_repoUri request))
                     (DocumentBody \<lparr>doc_repoUri = req_repoUri request,
                        doc_path = req_filePath request, doc_content = content,
                        doc_language = detectLanguage env (req_filePath request) content,
                        doc_qnames = qnames\<rparr>)]
          \<and> set qnames = (\<lambda>s. sym_name (symbolInformation s)) ` set (symbols first)
          \<and> distinct qnames"
    if "lstat env (req_localRepoPath request @ req_filePath request) = Inr isLink"
      and "(if isLink then readlink env (req_localRepoPath request @ req_filePath request)
            else readFile env (req_localRepoPath request @ req_filePath request)) = Inr content"
    using ok [OF read_content_ok [OF that]] q by blast
  from 1 2 show ?thesis by blast
qed

theorem processRequest_first_result_witness:
  "(\<exists>tail. calls_during example_indexer
        (snd (processRequest example_env (example_request ''a.ts'') example_indexer)) =
          [HIndex (SymbolIndexName ''repo'') (SymbolBody (example_symbol ''f'')),
           HIndex (SymbolIndexName ''repo'') (SymbolBody (example_symbol ''g'')),
           HIndex (SymbolIndexName ''repo'') (SymbolBody (example_symbol ''f'')),
           HIndex (ReferenceIndexName ''repo'') (ReferenceBody ''f@3'')] @ tail)
   \<and> (\<exists>qnames.
      fst (processRequest example_env (example_request ''a.ts'') example_indexer) =
        Inr [Symbol \<mapsto> 3, Reference \<mapsto> 1, File \<mapsto> 1]
    \<and> calls_during example_indexer
        (snd (processRequest example_env (example_request ''a.ts'') example_indexer)) =
        [HIndex (SymbolIndexName ''repo'') (SymbolBody (example_symbol ''f'')),
         HIndex (SymbolIndexName ''repo'') (SymbolBody (example_symbol ''g'')),
         HIndex (SymbolIndexName ''repo'') (SymbolBody (example_symbol ''f'')),
         HIndex (ReferenceIndexName ''repo'') (ReferenceBody ''f@3''),
         HIndex (DocumentIndexName ''repo'')
           (DocumentBody \<lparr>doc_repoUri = ''repo'', doc_path = ''a.ts'',
              doc_content = ''let x = 1'', doc_language = ''typescript'',
              doc_qnames = qnames\<rparr>)]
    \<and> set qnames = {''f'', ''g''} \<and> distinct qnames)"
proof -
  have 1: "textDocument_full example_env (example_request ''a.ts'') example_indexer
      = Inr (Some example_response)"
    by (simp add: example_defs)
  have 2: "result example_response =
      \<lparr>symbols = [example_symbol ''f'', example_symbol ''g'', example_symbol ''f''],
        references = [''f@3'']\<rparr>
      # [\<lparr>symbols = [example_symbol ''h''], references = [''h@7'', ''h@9'']\<rparr>]"
    by (simp add: example_response_def)
  have 3: "lstat example_env
          (req_localRepoPath (example_request ''a.ts'') @ req_filePath (example_request ''a.ts''))
          = Inr False
      \<and> (if False
          then readlink example_env
            (req_localRepoPath (example_request ''a.ts'') @ req_filePath (example_request ''a.ts''))
          else readFile example_env
            (req_localRepoPath (example_request ''a.ts'') @ req_filePath (example_request ''a.ts'')))
          = Inr ''let x = 1''"
    by (simp add: example_defs)
  have 4: "req_repoUri (example_request ''a.ts'') = ''repo''
      \<and> req_filePath (example_request ''a.ts'') = ''a.ts''
      \<and> detectLanguage example_env ''a.ts'' ''let x = 1'' = ''typescript''"
    by (simp add: example_defs)
  from processRequest_first_result [OF 1 2, of False "''let x = 1''"] 3 4 show ?thesis
    by (simp add: symbol_writes_def reference_writes_def insert_commute numeral_3_eq_3
        example_symbol_def)
qed

text \<open>
  Claim C6 as stated fails: at \<open>gone.ts\<close> the analysis succeeds with a non-empty result,
  but \<^verbatim>\<open>lstat\<close> raises, so \<open>processRequest\<close> raises, returns no statistics and writes no
  Document.
\<close>

theorem processRequest_first_result_unreadable:
  "textDocument_full example_env (example_request ''gone.ts'') example_indexer
     = Inr (Some example_response)
   \<and> result example_response \<noteq> []
   \<and> fst (processRequest example_env (example_request ''gone.ts'') example_indexer)
       = Inl ''ENOENT''
   \<and> documents_written (calls_during example_indexer
        (snd (processRequest example_env (example_request ''gone.ts'') example_indexer))) = []"
  by (simp add: calls_during_def run_defs example_defs)

text \<open>
  Claim C9. When the read of the file from the working copy fails (\<^verbatim>\<open>lstat\<close>,
  \<^verbatim>\<open>readlink\<close> or \<^verbatim>\<open>readFile\<close> raises), \<open>processRequest\<close> raises that error: it returns
  no statistics and hands no Document to the batch helper, while the symbol and
  reference writes of the same item, made before the read, stay with the helper.
\<close>

theorem processRequest_read_failure:
  assumes "lstat env (localFilePath request) = Inl e
     \<or> (lstat env (localFilePath request) = Inr True
          \<and> readlink env (localFilePath request) = Inl e)
     \<or> (lstat env (localFilePath request) = Inr False
          \<and> readFile env (localFilePath request) = Inl e)"
  shows "fst (processRequest env request st) = Inl e
    \<and> documents_written (calls_during st (snd (processRequest env request st))) = []
    \<and> (\<forall>response first others.
          textDocument_full env request st = Inr (Some response)
          \<and> result response = first # others \<longrightarrow>
          calls_during st (snd (processRequest env request st)) =
            symbol_writes (req_repoUri request) (symbols first)
              @ reference_writes (req_repoUri request) (references first))"
proof -
  have r: "read_content env (localFilePath request) = Inl e"
    using assms by (simp add: read_content_Inl_iff)
  note p = processRequest_read_error [OF r, of st]
  obtain new where n: "batchIndexHelper (snd (snd (index_symbols_and_references env request
        [Symbol \<mapsto> 0, Reference \<mapsto> 0, File \<mapsto> 0] st))) = batchIndexHelper st @ new"
      "documents_written new = []"
    using analysis_calls by blast
  have "fst (processRequest env request st) = Inl e"
    by (simp add: p)
  moreover have "documents_written (calls_during st (snd (processRequest env request st))) = []"
    by (simp add: p calls_during_def n)
  moreover have "calls_during st (snd (processRequest env request st)) =
            symbol_writes (req_repoUri request) (symbols first)
              @ reference_writes (req_repoUri request) (references first)"
    if "textDocument_full env request st = Inr (Some response)" "result response = first # others"
    for response first others
    by (simp add: p calls_during_def analysis_success [OF that])
  ultimately show ?thesis by blast
qed

theorem processRequest_read_failure_witness:
  "fst (processRequest example_env (example_request ''gone.ts'') example_indexer) = Inl ''ENOENT''
   \<and> documents_written (calls_during example_indexer
         (snd (processRequest example_env (example_request ''gone.ts'') example_indexer))) = []
   \<and> calls_during example_indexer
         (snd (processRequest example_env (example_request ''gone.ts'') example_indexer)) =
       [HIndex (SymbolIndexName ''repo'') (SymbolBody (example_symbol ''f'')),
        HIndex (SymbolIndexName ''repo'') (SymbolBody (example_symbol ''g'')),
        HIndex (SymbolIndexName ''repo'') (SymbolBody (example_symbol ''f'')),
        HIndex (ReferenceIndexName ''repo'') (ReferenceBody ''f@3'')]"
proof -
  have 1: "lstat example_env (localFilePath (example_request ''gone.ts'')) = Inl ''ENOENT''"
    by (simp add: example_defs)
  have 2: "textDocument_full example_env (example_request ''gone.ts'') example_indexer
      = Inr (Some example_response)
    \<and> result example_response =
      \<lparr>symbols = [example_symbol ''f'', example_symbol ''g'', example_symbol ''f''],
        references = [''f@3'']\<rparr>
      # [\<lparr>symbols = [example_symbol ''h''], references = [''h@7'', ''h@9'']\<rparr>]"
    by (simp add: example_defs)
  have 3: "req_repoUri (example_request ''gone.ts'') = ''repo''"
    by (simp add: example_request_def)
  from processRequest_read_failure
    [of example_env "example_request ''gone.ts''" "''ENOENT''" example_indexer] 1 2 3
  show ?thesis
    by (auto simp: symbol_writes_def reference_writes_def)
qed

text \<open>
  Claim C7. For an item whose local path is a symbolic link, the content of the
  Document handed to the batch helper is the text returned by \<^verbatim>\<open>readlink\<close>, whatever
  \<^verbatim>\<open>readFile\<close> would return; for any other path it is the text returned by
  \<^verbatim>\<open>readFile\<close>.
\<close>

theorem processRequest_symbolic_link:
  "(lstat env (localFilePath request) = Inr True
      \<and> readlink env (localFilePath request) = Inr target \<longrightarrow>
      map doc_content (documents_written (calls_during st (snd (processRequest env request st))))
        = [target]
      \<and> processRequest (env\<lparr>readFile := other\<rparr>) request st = processRequest env request st)
   \<and> (lstat env (localFilePath request) = Inr False
      \<and> readFile env (localFilePath request) = Inr bytes \<longrightarrow>
      map doc_content (documents_written (calls_during st (snd (processRequest env request st))))
        = [bytes])"
proof -
  have doc: "map doc_content
      (documents_written (calls_during st (snd (processRequest env request st)))) = [content]"
    if "read_content env (localFilePath request) = Inr content" for content
  proof -
    obtain new where n: "batchIndexHelper (snd (snd (index_symbols_and_references env request
          [Symbol \<mapsto> 0, Reference \<mapsto> 0, File \<mapsto> 0] st))) = batchIndexHelper st @ new"
      "documents_written new = []"
      using analysis_calls by blast
    show ?thesis
      by (simp add: processRequest_read_ok [OF that] helper_index_def calls_during_def n
          documents_written_append)
  qed
  have same: "processRequest (env\<lparr>readFile := other\<rparr>) request st = processRequest env request st"
    if "lstat env (localFilePath request) = Inr True"
  proof -
    have "index_symbols_and_references (env\<lparr>readFile := other\<rparr>) request stats st
        = index_symbols_and_references env request stats st" for stats
      by (simp add: index_symbols_and_references_def textDocument_full_def lspDocUri_def)
    moreover have "read_content (env\<lparr>readFile := other\<rparr>) (localFilePath request)
        = read_content env (localFilePath request)"
      using that by (simp add: read_content_def)
    ultimately show ?thesis
      by (simp add: processRequest_def split: prod.splits sum.splits)
  qed
  show ?thesis
    using doc same by (simp add: read_content_def)
qed

theorem processRequest_symbolic_link_witness:
  "map doc_content (documents_written (calls_during example_indexer
      (snd (processRequest example_env (example_request ''link.ts'') example_indexer))))
     = [''a.ts'']
   \<and> map doc_content (documents_written (calls_during example_indexer
      (snd (processRequest example_env (example_request ''a.ts'') example_indexer))))
     = [''let x = 1'']"
proof -
  have 1: "lstat example_env (localFilePath (example_request ''link.ts'')) = Inr True
      \<and> readlink example_env (localFilePath (example_request ''link.ts'')) = Inr ''a.ts''"
    by (simp add: example_defs)
  have 2: "lstat example_env (localFilePath (example_request ''a.ts'')) = Inr False
      \<and> readFile example_env (localFilePath (example_request ''a.ts'')) = Inr ''let x = 1''"
    by (simp add: example_defs)
  from processRequest_symbolic_link
      [where env = example_env and request = "example_request ''link.ts''"
        and st = example_indexer and target = "''a.ts''"] 1
    processRequest_symbolic_link
      [where env = example_env and request = "example_request ''a.ts''"
        and st = example_indexer and bytes = "''let x = 1''"] 2
  show ?thesis
    by blast
qed

text \<open>
  Claim C10. When the result array of the analysis response has more than one element,
  \<open>processRequest\<close> behaves as on the response cut down to its first element: the
  symbols and references of the later elements are neither buffered nor counted.
\<close>

theorem processRequest_only_first_result:
  assumes "textDocument_full env request st = Inr (Some response)"
    and "result response = first # others"
  shows "processRequest env request st =
     processRequest (env\<lparr>sendRequest := \<lambda>method uri reference.
        Inr (Some (response\<lparr>result := [first]\<rparr>))\<rparr>) request st"
proof -
  let ?env = "env\<lparr>sendRequest := \<lambda>method uri reference.
        Inr (Some (response\<lparr>result := [first]\<rparr>))\<rparr>"
  have 1: "textDocument_full ?env request st = Inr (Some (response\<lparr>result := [first]\<rparr>))"
    by (simp add: textDocument_full_def)
  have 2: "result (response\<lparr>result := [first]\<rparr>) = first # []"
    by simp
  have "index_symbols_and_references ?env request stats st
      = index_symbols_and_references env request stats st" for stats
    by (simp only: analysis_success [OF assms] analysis_success [OF 1 2])
  moreover have "read_content ?env (localFilePath request)
      = read_content env (localFilePath request)"
    by (simp add: read_content_def split: sum.splits)
  ultimately show ?thesis
    by (simp add: processRequest_def split: prod.splits sum.splits)
qed

theorem processRequest_only_first_result_witness:
  "processRequest example_env (example_request ''a.ts'') example_indexer =
     processRequest
       (example_env\<lparr>sendRequest := \<lambda>method uri reference.
          Inr (Some (example_response\<lparr>result :=
            [\<lparr>symbols = [example_symbol ''f'', example_symbol ''g'', example_symbol ''f''],
              references = [''f@3'']\<rparr>]\<rparr>))\<rparr>)
       (example_request ''a.ts'') example_indexer"
proof -
  have 1: "textDocument_full example_env (example_request ''a.ts'') example_indexer
      = Inr (Some example_response)"
    by (simp add: example_defs)
  have 2: "result example_response =
      \<lparr>symbols = [example_symbol ''f'', example_symbol ''g'', example_symbol ''f''],
        references = [''f@3'']\<rparr>
      # [\<lparr>symbols = [example_symbol ''h''], references = [''h@7'', ''h@9'']\<rparr>]"
    by (simp add: example_response_def)
  from processRequest_only_first_result [OF 1 2] show ?thesis .
qed

section \<open>Properties of prepareRequests\<close>

lemma supported_file_iff:
  "supported_file env p \<longleftrightarrow>
     (\<exists>lang. detectLanguageByFilename env p = Some lang \<and> lang \<noteq> [] \<and> supportLanguage env lang)"
  by (simp add: supported_file_def split: option.splits)

text \<open>
  Claim C2, as amended. Enumeration opens the working copy of the repository at the fixed
  reference \<open>head\<close> and walks the file tree at \<open>HEAD\<close>, whatever the revision of the run
  is. When both calls succeed it keeps, in order, exactly the files whose language
  detected by filename exists, is not the empty string and is supported by the
  language-analysis service, and returns one request per kept file carrying the
  repository of the run, the root directory of the working copy, the path of the file
  and the revision resolved from the opened working copy.
\<close>

theorem prepareRequests_at_head:
  assumes "openWorkspace env (repoUri st) ''head'' = Inr (workspaceDir, workspaceRevision)"
    and "fileTree env (repoUri st) [] ''HEAD'' 0 MAX_SAFE_INTEGER False MAX_SAFE_INTEGER = Inr tree"
  shows "\<exists>requests.
      prepareRequests env st = (Inr requests, st)
    \<and> map req_filePath requests =
        filter (\<lambda>p. \<exists>lang. detectLanguageByFilename env p = Some lang \<and> lang \<noteq> []
                      \<and> supportLanguage env lang)
          (getAllFiles env tree)
    \<and> (\<forall>r \<in> set requests.
          req_repoUri r = repoUri st \<and> req_localRepoPath r = workspaceDir
          \<and> req_revision r = workspaceRevision)"
proof -
  have "supported_file env = (\<lambda>p. \<exists>lang. detectLanguageByFilename env p = Some lang \<and> lang \<noteq> []
                      \<and> supportLanguage env lang)"
    by (rule ext) (rule supported_file_iff)
  then show ?thesis
    using assms by (simp add: prepareRequests_def comp_def)
qed

theorem prepareRequests_at_head_witness:
  "prepareRequests example_env example_indexer =
     (Inr [example_request ''a.ts'', example_request ''b.ts'', example_request ''link.ts''],
      example_indexer)"
proof -
  have 1: "openWorkspace example_env (repoUri example_indexer) ''head'' = Inr (''/ws/'', ''rev1'')"
    by (simp add: example_defs)
  have 2: "fileTree example_env (repoUri example_indexer) [] ''HEAD'' 0 MAX_SAFE_INTEGER False
      MAX_SAFE_INTEGER = Inr [''a.ts'', ''README'', ''b.ts'', ''link.ts'']"
    by (simp add: example_defs)
  have 3: "filter (\<lambda>p. \<exists>lang. detectLanguageByFilename example_env p = Some lang \<and> lang \<noteq> []
                      \<and> supportLanguage example_env lang)
          (getAllFiles example_env [''a.ts'', ''README'', ''b.ts'', ''link.ts''])
      = [''a.ts'', ''b.ts'', ''link.ts'']"
    by (simp add: example_defs)
  have 4: "repoUri example_indexer = ''repo''"
    by (simp add: example_defs)
  from prepareRequests_at_head [OF 1 2] obtain requests where
    r: "prepareRequests example_env example_indexer = (Inr requests, example_indexer)"
      "map req_filePath requests = [''a.ts'', ''b.ts'', ''link.ts'']"
      "\<forall>r \<in> set requests. req_repoUri r = ''repo'' \<and> req_localRepoPath r = ''/ws/''
          \<and> req_revision r = ''rev1''"
    unfolding 3 4 by (elim exE conjE)
  from r(2,3) have "requests =
      [example_request ''a.ts'', example_request ''b.ts'', example_request ''link.ts'']"
    by (auto simp: example_request_def map_eq_Cons_conv)
  with r(1) show ?thesis by simp
qed

text \<open>
  Claim C2 as stated fails: for a run whose revision is not \<open>head\<close>, enumeration at the
  revision of the run differs from what the code enumerates.
\<close>

theorem prepareRequests_ignores_revision:
  "revision example_indexer = ''v1''
   \<and> fst (prepareRequests example_env example_indexer) =
       Inr [example_request ''a.ts'', example_request ''b.ts'', example_request ''link.ts'']
   \<and> fst (prepareRequests_spec example_env example_indexer) =
       Inr [\<lparr>req_repoUri = ''repo'', req_localRepoPath = ''/old/'', req_filePath = ''old.ts'',
            req_revision = ''rev0''\<rparr>]
   \<and> prepareRequests example_env example_indexer
       \<noteq> prepareRequests_spec example_env example_indexer"
  by (simp add: prepareRequests_def prepareRequests_spec_def example_defs supported_file_def)

section \<open>Properties of cleanIndex\<close>

lemma matches_document_cleanup_query:
  "matches (document_cleanup_query env) d \<longleftrightarrow> \<not> carries_reserved_field env d"
  by (simp add: document_cleanup_query_def carries_reserved_field_def)

lemma clean_up_store:
  "store (clean_up env what uri idx q st) =
     (case deleteByQuery_error env idx q of
        Some e \<Rightarrow> store st
      | None \<Rightarrow> (store st)(idx := filter (\<lambda>d. \<not> matches q d) (store st idx)))"
  by (simp add: clean_up_def deleteByQuery_def log_entry_def Let_def split: option.splits)

text \<open>
  Claim C5. \<open>cleanIndex\<close> issues the three deletions in the order symbols, references,
  documents, whichever of them fail, and never raises.
\<close>

theorem cleanIndex_attempts_all:
  "fst (cleanIndex env uri st) = Inr ()
   \<and> client_calls (snd (cleanIndex env uri st)) =
       client_calls st @
         [(SymbolIndexName uri, MatchAll), (ReferenceIndexName uri, MatchAll),
          (DocumentIndexName uri, document_cleanup_query env)]"
  by (simp add: cleanIndex_def clean_up_def deleteByQuery_def log_entry_def Let_def
      split: option.splits)

theorem cleanIndex_attempts_all_witness:
  "fst (cleanIndex (example_env\<lparr>deleteByQuery_error := \<lambda>idx q. Some ''backend unavailable''\<rparr>)
      ''repo'' example_indexer) = Inr ()
   \<and> client_calls (snd (cleanIndex
        (example_env\<lparr>deleteByQuery_error := \<lambda>idx q. Some ''backend unavailable''\<rparr>)
        ''repo'' example_indexer)) =
       [(SymbolIndexName ''repo'', MatchAll), (ReferenceIndexName ''repo'', MatchAll),
        (DocumentIndexName ''repo'',
         BoolMustNot [Exists ''repository'', Exists ''repository_git_status'',
           Exists ''repository_lsp_index_status'', Exists ''repository_delete_status''])]"
  using cleanIndex_attempts_all
    [of "example_env\<lparr>deleteByQuery_error := \<lambda>idx q. Some ''backend unavailable''\<rparr>"
      "''repo''" example_indexer]
  by (simp add: document_cleanup_query_def example_defs)

text \<open>
  Claim C4. The entries of the document collection that carry a reserved field are the
  same before and after \<open>cleanIndex\<close>; and when the deletion on the document collection
  succeeds, they are all that is left: every entry without a reserved field is gone.
\<close>

theorem cleanIndex_keeps_markers:
  "filter (carries_reserved_field env) (store (snd (cleanIndex env uri st)) (DocumentIndexName uri))
     = filter (carries_reserved_field env) (store st (DocumentIndexName uri))
   \<and> (deleteByQuery_error env (DocumentIndexName uri) (document_cleanup_query env) = None \<longrightarrow>
        store (snd (cleanIndex env uri st)) (DocumentIndexName uri)
          = filter (carries_reserved_field env) (store st (DocumentIndexName uri)))"
  by (simp add: cleanIndex_def clean_up_store matches_document_cleanup_query Let_def
      split: option.splits)

theorem cleanIndex_keeps_markers_witness:
  "store (snd (cleanIndex example_env ''repo'' example_indexer)) (DocumentIndexName ''repo'')
     = [[(''repository'', ''repo'')], [(''repository_git_status'', ''done'')]]"
proof -
  have 1: "deleteByQuery_error example_env (DocumentIndexName ''repo'')
      (document_cleanup_query example_env) = None"
    by (simp add: example_defs)
  have 2: "filter (carries_reserved_field example_env)
      (store example_indexer (DocumentIndexName ''repo''))
        = [[(''repository'', ''repo'')], [(''repository_git_status'', ''done'')]]"
    by (simp add: carries_reserved_field_def example_store_def example_defs)
  from cleanIndex_keeps_markers [of example_env "''repo''" example_indexer] 1 2
  show ?thesis
    by simp
qed

section \<open>Properties of start and cancel\<close>

lemma continues_refl: "continues st st"
  by (simp add: continues_def)

lemma continues_trans: "continues a b \<Longrightarrow> continues b c \<Longrightarrow> continues a c"
  unfolding continues_def
  apply (elim conjE exE)
  subgoal for new new'
    apply (rule conjI, simp)
    apply (rule exI [of _ "new @ new'"])
    apply auto
    done
  done

lemma continues_fields:
  "continues st st' \<Longrightarrow> continues st (st'\<lparr>run_state := s\<rparr>)"
  "continues st st' \<Longrightarrow> continues st (st'\<lparr>reported := r\<rparr>)"
  "continues st st' \<Longrightarrow> continues st (log_entry l st')"
  by (simp_all add: continues_def log_entry_def)

lemma continues_from_run_state:
  "continues (st\<lparr>run_state := s\<rparr>) st' \<Longrightarrow> continues st st'"
  by (simp add: continues_def)

lemma continues_cancel: "continues st (cancel st)"
  by (simp add: continues_def cancel_def AbstractIndexer_cancel_def helper_cancel_def)

lemma continues_arrive: "continues st (arrive sched p st)"
  by (simp add: arrive_def continues_cancel continues_refl)

lemma index_calls_continue:
  assumes "repoUri st' = repoUri st" "cancelled st' = cancelled st"
    and "batchIndexHelper st' = batchIndexHelper st @ new" "\<forall>c \<in> set new. is_index c"
  shows "continues st st'"
proof -
  have "HFlush \<notin> set new" "HCancel \<notin> set new"
    using assms(4) by auto
  then show ?thesis
    using assms(1-3) by (auto simp: continues_def)
qed

lemma is_index_writes:
  "\<forall>c \<in> set (symbol_writes uri syms). is_index c"
  "\<forall>c \<in> set (reference_writes uri refs). is_index c"
  by (auto simp: symbol_writes_def reference_writes_def)

lemma analysis_state:
  "\<exists>new. batchIndexHelper (snd (snd (index_symbols_and_references env request stats st)))
       = batchIndexHelper st @ new \<and> (\<forall>c \<in> set new. is_index c)
    \<and> cancelled (snd (snd (index_symbols_and_references env request stats st))) = cancelled st
    \<and> repoUri (snd (snd (index_symbols_and_references env request stats st))) = repoUri st"
proof (cases "analysis_failed env request st")
  case True
  then show ?thesis
    by (auto simp: analysis_failed_def index_symbols_and_references_def log_entry_def
      split: sum.splits option.splits list.splits)
next
  case False
  then obtain response first others where
    "textDocument_full env request st = Inr (Some response)" "result response = first # others"
    by (auto simp: analysis_failed_def neq_Nil_conv split: sum.splits option.splits)
  from analysis_success [OF this, of stats] show ?thesis
    using is_index_writes by (auto simp: ball_Un)
qed

lemma processRequest_state:
  "\<exists>new. batchIndexHelper (snd (processRequest env request st)) = batchIndexHelper st @ new
     \<and> (\<forall>c \<in> set new. is_index c)
     \<and> cancelled (snd (processRequest env request st)) = cancelled st
     \<and> repoUri (snd (processRequest env request st)) = repoUri st"
proof -
  obtain new where n:
    "batchIndexHelper (snd (snd (index_symbols_and_references env request
        [Symbol \<mapsto> 0, Reference \<mapsto> 0, File \<mapsto> 0] st))) = batchIndexHelper st @ new"
    "\<forall>c \<in> set new. is_index c"
    "cancelled (snd (snd (index_symbols_and_references env request
        [Symbol \<mapsto> 0, Reference \<mapsto> 0, File \<mapsto> 0] st))) = cancelled st"
    "repoUri (snd (snd (index_symbols_and_references env request
        [Symbol \<mapsto> 0, Reference \<mapsto> 0, File \<mapsto> 0] st))) = repoUri st"
    using analysis_state by blast
  show ?thesis
  proof (cases "read_content env (localFilePath request)")
    case (Inl e)
    show ?thesis
      using n by (simp add: processRequest_read_error [OF Inl])
  next
    case (Inr content)
    show ?thesis
      using n(2-4)
      by (simp add: processRequest_read_ok [OF Inr] helper_index_def n(1))
  qed
qed

lemma continues_processRequest: "continues st (snd (processRequest env request st))"
  using processRequest_state [of env request st] index_calls_continue by blast

lemma continues_process_requests:
  "continues st (snd (process_requests env sched n k reqs runStats st))"
proof (induction reqs arbitrary: k runStats st)
  case Nil
  show ?case by (simp add: continues_fields continues_refl)
next
  case (Cons req rest)
  let ?st1 = "snd (processRequest env req (arrive sched (AtItem k) st))"
  have 1: "continues st ?st1"
    using continues_arrive continues_processRequest continues_trans by blast
  show ?case
  proof (cases "isCancelled st")
    case True
    then show ?thesis by (simp add: continues_fields continues_refl)
  next
    case False
    show ?thesis
    proof (cases "processRequest env req (arrive sched (AtItem k) st)")
      case (Pair res st1)
      with 1 have c: "continues st st1" by simp
      show ?thesis
      proof (cases res)
        case (Inl e)
        let ?next = "(log_entry (LogError e) st1)\<lparr>reported := reported st1 @ [(Suc k, n)]\<rparr>"
        have "continues st ?next"
          using c by (simp add: continues_fields)
        moreover have "process_requests env sched n k (req # rest) runStats st =
            process_requests env sched n (Suc k) rest runStats ?next"
          using False Pair Inl by simp
        ultimately show ?thesis
          using Cons.IH [of ?next "Suc k" runStats] continues_trans by metis
      next
        case (Inr stats)
        let ?next = "st1\<lparr>reported := reported st1 @ [(Suc k, n)]\<rparr>"
        have "continues st ?next"
          using c by (simp add: continues_fields)
        moreover have "process_requests env sched n k (req # rest) runStats st =
            process_requests env sched n (Suc k) rest (aggregateIndexStats runStats stats) ?next"
          using False Pair Inr by simp
        ultimately show ?thesis
          using Cons.IH [of ?next "Suc k" "aggregateIndexStats runStats stats"] continues_trans
          by metis
      qed
    qed
  qed
qed

lemma continues_prepareRequests: "continues st (snd (prepareRequests env st))"
  by (simp add: prepareRequests_def prepareRequests_rethrow_def continues_fields continues_refl
      split: sum.splits prod.splits)

lemma continues_AbstractIndexer_start: "continues st (snd (AbstractIndexer_start env sched st))"
proof -
  let ?st1 = "arrive sched AtPrepareIndices (st\<lparr>run_state := PreparingIndices\<rparr>)"
  let ?st2 = "arrive sched AtEnumeration (?st1\<lparr>run_state := EnumeratingRequests\<rparr>)"
  have 1: "continues st ?st1"
    by (rule continues_from_run_state [OF continues_arrive])
  have "continues ?st1 ?st2"
    by (rule continues_from_run_state [OF continues_arrive])
  with 1 have 2: "continues st ?st2"
    by (rule continues_trans)
  have 3: "continues st (snd (prepareRequests env ?st2))"
    using 2 continues_prepareRequests by (rule continues_trans)
  show ?thesis
  proof (cases "prepareIndex env (prepareIndexCreationRequests ?st1)")
    case (Inl e)
    then show ?thesis
      using 1 by (simp add: AbstractIndexer_start_def Let_def continues_fields)
  next
    case (Inr u)
    show ?thesis
    proof (cases "prepareRequests env ?st2")
      case (Pair res st3)
      with 3 have c: "continues st st3" by simp
      show ?thesis
      proof (cases res)
        case (Inl e)
        then show ?thesis
          using Inr Pair c by (simp add: AbstractIndexer_start_def Let_def continues_fields)
      next
        case r: (Inr reqs)
        let ?st4 = "st3\<lparr>run_state := Processing\<rparr>"
        have "continues st ?st4"
          using c by (simp add: continues_fields)
        then have "continues st (snd (process_requests env sched (length reqs) 0 reqs
            [Symbol \<mapsto> 0, Reference \<mapsto> 0, File \<mapsto> 0] ?st4))"
          using continues_process_requests by (rule continues_trans)
        then show ?thesis
          using Inr Pair r
          by (simp add: AbstractIndexer_start_def Let_def split_beta)
      qed
    qed
  qed
qed

lemma buffer_call_cancelled:
  "helper_cancelled h \<Longrightarrow> batch h = [] \<Longrightarrow> buffer_call batchSize h c = h"
  by (cases c) (simp_all add: buffer_flush_def)

lemma buffer_calls_cancelled:
  "helper_cancelled h \<Longrightarrow> batch h = [] \<Longrightarrow> foldl (buffer_call batchSize) h cs = h"
  by (induction cs) (simp_all add: buffer_call_cancelled)

lemma buffer_after_cancel:
  "buffer_after batchSize (before @ HCancel # after) =
     (buffer_after batchSize before)\<lparr>batch := [], helper_cancelled := True\<rparr>"
  by (simp add: buffer_after_def buffer_calls_cancelled)

text \<open>
  Claim C3. When \<open>start\<close> ends with the indexer not cancelled, whether the inherited
  \<open>start\<close> returned or raised, the batch helper received exactly one \<open>flush\<close> during
  \<open>start\<close>, as its last call. When it ends with the indexer cancelled, the helper
  received no \<open>flush\<close>; and if the indexer was not cancelled before, the helper received
  a \<open>cancel\<close>, after which its buffer is empty and no bulk operation was sent beyond
  those sent before the \<open>cancel\<close>. \<open>cancel\<close> itself raises the flag and passes the
  cancellation to the helper.
\<close>

theorem start_final_flush:
  "(\<not> isCancelled (snd (start env sched st)) \<longrightarrow>
      count_list (calls_during st (snd (start env sched st))) HFlush = 1
      \<and> last (batchIndexHelper (snd (start env sched st))) = HFlush)
   \<and> (isCancelled (snd (start env sched st)) \<longrightarrow>
      count_list (calls_during st (snd (start env sched st))) HFlush = 0)
   \<and> (\<not> isCancelled st \<and> isCancelled (snd (start env sched st)) \<longrightarrow>
      (\<exists>before after.
          batchIndexHelper (snd (start env sched st)) = before @ HCancel # after
        \<and> batch (buffer_after batchSize (batchIndexHelper (snd (start env sched st)))) = []
        \<and> bulks (buffer_after batchSize (batchIndexHelper (snd (start env sched st))))
            = bulks (buffer_after batchSize before)))
   \<and> isCancelled (cancel st)
   \<and> batchIndexHelper (cancel st) = batchIndexHelper st @ [HCancel]"
proof -
  let ?a = "snd (AbstractIndexer_start env sched st)"
  let ?s = "snd (start env sched st)"
  obtain new where n: "batchIndexHelper ?a = batchIndexHelper st @ new" "HFlush \<notin> set new"
      "cancelled ?a \<longleftrightarrow> cancelled st \<or> HCancel \<in> set new"
    using continues_AbstractIndexer_start [of st env sched] unfolding continues_def
    by (elim conjE exE)
  have s: "?s = (if \<not> cancelled ?a then helper_flush ?a else ?a)"
    by (simp add: start_def isCancelled_def split_beta)
  have zero: "count_list new HFlush = 0"
    using n(2) by (simp add: count_list_0_iff)
  have 1: "count_list (calls_during st ?s) HFlush = 1 \<and> last (batchIndexHelper ?s) = HFlush"
    if "\<not> isCancelled ?s"
  proof -
    have "\<not> cancelled ?a"
      using that by (simp add: s isCancelled_def helper_flush_def split: if_splits)
    then have "batchIndexHelper ?s = batchIndexHelper st @ new @ [HFlush]"
      by (simp add: s helper_flush_def n(1))
    then show ?thesis
      using zero by (simp add: calls_during_def)
  qed
  have 2: "count_list (calls_during st ?s) HFlush = 0" if "isCancelled ?s"
  proof -
    have "cancelled ?a"
      using that by (simp add: s isCancelled_def helper_flush_def split: if_splits)
    then have "batchIndexHelper ?s = batchIndexHelper st @ new"
      by (simp add: s n(1))
    then show ?thesis
      using zero by (simp add: calls_during_def)
  qed
  have 3: "\<exists>before after.
          batchIndexHelper ?s = before @ HCancel # after
        \<and> batch (buffer_after batchSize (batchIndexHelper ?s)) = []
        \<and> bulks (buffer_after batchSize (batchIndexHelper ?s))
            = bulks (buffer_after batchSize before)"
    if "\<not> isCancelled st" "isCancelled ?s"
  proof -
    have c: "cancelled ?a"
      using that(2) by (simp add: s isCancelled_def helper_flush_def split: if_splits)
    then have e: "batchIndexHelper ?s = batchIndexHelper st @ new"
      by (simp add: s n(1))
    have "HCancel \<in> set new"
      using c n(3) that(1) by (simp add: isCancelled_def)
    then obtain xs ys where "new = xs @ HCancel # ys"
      by (auto simp: in_set_conv_decomp)
    then have d: "batchIndexHelper ?s = (batchIndexHelper st @ xs) @ HCancel # ys"
      by (simp add: e)
    have "batch (buffer_after batchSize (batchIndexHelper ?s)) = []
        \<and> bulks (buffer_after batchSize (batchIndexHelper ?s))
            = bulks (buffer_after batchSize (batchIndexHelper st @ xs))"
      by (simp only: d buffer_after_cancel) simp
    with d show ?thesis by blast
  qed
  have 4: "isCancelled (cancel st) \<and> batchIndexHelper (cancel st) = batchIndexHelper st @ [HCancel]"
    by (simp add: cancel_def isCancelled_def AbstractIndexer_cancel_def helper_cancel_def)
  from 1 2 3 4 show ?thesis
    by (intro conjI impI) simp_all
qed

theorem start_final_flush_witness:
  "count_list (calls_during example_indexer
       (snd (start example_env (\<lambda>p. False) example_indexer))) HFlush = 1
   \<and> count_list (calls_during example_indexer
       (snd (start example_env (\<lambda>p. p = AtItem 1) example_indexer))) HFlush = 0
   \<and> batch (buffer_after 2
       (batchIndexHelper (snd (start example_env (\<lambda>p. p = AtItem 1) example_indexer)))) = []"
proof -
  have 1: "\<not> isCancelled (snd (start example_env (\<lambda>p. False) example_indexer))"
    by (simp add: run_defs example_defs)
  have 2: "isCancelled (snd (start example_env (\<lambda>p. p = AtItem 1) example_indexer))"
    by (simp add: run_defs example_defs)
  have 3: "\<not> isCancelled example_indexer"
    by (simp add: isCancelled_def example_defs)
  from start_final_flush [of example_env "\<lambda>p. False" example_indexer 2] 1
    start_final_flush [of example_env "\<lambda>p. p = AtItem 1" example_indexer 2] 2 3
  show ?thesis
    by blast
qed

lemma prepareRequests_fails:
  assumes "openWorkspace env (repoUri st) ''head'' = Inl e
     \<or> (\<exists>ws. openWorkspace env (repoUri st) ''head'' = Inr ws
          \<and> fileTree env (repoUri st) [] ''HEAD'' 0 MAX_SAFE_INTEGER False MAX_SAFE_INTEGER
              = Inl e)"
  shows "prepareRequests env st = prepareRequests_rethrow e st"
  using assms by (auto simp: prepareRequests_def)

lemma repoUri_arrive: "repoUri (arrive sched p st) = repoUri st"
  by (simp add: arrive_def cancel_def AbstractIndexer_cancel_def helper_cancel_def)

lemma calls_arrive:
  "batchIndexHelper (arrive sched p st) =
     batchIndexHelper st @ (if sched p then [HCancel] else [])"
  by (simp add: arrive_def cancel_def AbstractIndexer_cancel_def helper_cancel_def)

text \<open>
  Claim C8. When enumeration fails, the workspace cannot be opened or the walk of the
  file tree raises, \<open>prepareRequests\<close> raises the same error; after a successful schema
  preparation \<open>start\<close> then raises that error, the run ends in the state \<open>Failed\<close>, and
  the batch helper received no \<open>index\<close> call during the run.
\<close>

theorem enumeration_failure_fails_run:
  assumes "prepareIndex env (prepareIndexCreationRequests st) = Inr ()"
    and "openWorkspace env (repoUri st) ''head'' = Inl e
     \<or> (\<exists>ws. openWorkspace env (repoUri st) ''head'' = Inr ws
          \<and> fileTree env (repoUri st) [] ''HEAD'' 0 MAX_SAFE_INTEGER False MAX_SAFE_INTEGER
              = Inl e)"
  shows "fst (prepareRequests env st) = Inl e
    \<and> fst (start env sched st) = Inl e
    \<and> run_state (snd (start env sched st)) = Failed
    \<and> filter is_index (calls_during st (snd (start env sched st))) = []"
proof -
  let ?st1 = "arrive sched AtPrepareIndices (st\<lparr>run_state := PreparingIndices\<rparr>)"
  let ?st2 = "arrive sched AtEnumeration (?st1\<lparr>run_state := EnumeratingRequests\<rparr>)"
  have u: "repoUri ?st2 = repoUri st" "repoUri ?st1 = repoUri st"
    by (simp_all add: repoUri_arrive)
  have p: "prepareIndex env (prepareIndexCreationRequests ?st1) = Inr ()"
    using assms(1) by (simp add: prepareIndexCreationRequests_def u)
  have "prepareRequests env ?st2 = prepareRequests_rethrow e ?st2"
    using assms(2) by (intro prepareRequests_fails) (simp only: u)
  then have a: "AbstractIndexer_start env sched st =
      (Inl e, (log_entry (LogError e)
         (log_entry (LogError ''Prepare lsp indexing requests error.'') ?st2))
           \<lparr>run_state := Failed\<rparr>)"
    using p by (simp add: AbstractIndexer_start_def Let_def prepareRequests_rethrow_def)
  have c: "batchIndexHelper ?st2 = batchIndexHelper st
      @ (if sched AtPrepareIndices then [HCancel] else [])
      @ (if sched AtEnumeration then [HCancel] else [])"
    by (simp add: calls_arrive)
  have "fst (prepareRequests env st) = Inl e"
    using prepareRequests_fails [OF assms(2)] by (simp add: prepareRequests_rethrow_def)
  moreover have "fst (start env sched st) = Inl e"
    by (simp add: start_def a)
  moreover have "run_state (snd (start env sched st)) = Failed"
    by (simp add: start_def a helper_flush_def log_entry_def)
  moreover have "filter is_index (calls_during st (snd (start env sched st))) = []"
    by (simp add: start_def a helper_flush_def log_entry_def calls_during_def c)
  ultimately show ?thesis by simp
qed

theorem enumeration_failure_fails_run_witness:
  "fst (start (example_env\<lparr>fileTree := \<lambda>uri path ref skip limit parents depth.
            Inl ''walk failed''\<rparr>) (\<lambda>p. False) example_indexer) = Inl ''walk failed''
   \<and> run_state (snd (start (example_env\<lparr>fileTree := \<lambda>uri path ref skip limit parents depth.
            Inl ''walk failed''\<rparr>) (\<lambda>p. False) example_indexer)) = Failed
   \<and> filter is_index (calls_during example_indexer
        (snd (start (example_env\<lparr>fileTree := \<lambda>uri path ref skip limit parents depth.
            Inl ''walk failed''\<rparr>) (\<lambda>p. False) example_indexer))) = []"
proof -
  let ?env = "example_env\<lparr>fileTree := \<lambda>uri path ref skip limit parents depth.
            Inl ''walk failed''\<rparr>"
  have 1: "prepareIndex ?env (prepareIndexCreationRequests example_indexer) = Inr ()"
    by (simp add: prepareIndexCreationRequests_def example_defs)
  have 2: "openWorkspace ?env (repoUri example_indexer) ''head'' = Inl ''walk failed''
     \<or> (\<exists>ws. openWorkspace ?env (repoUri example_indexer) ''head'' = Inr ws
          \<and> fileTree ?env (repoUri example_indexer) [] ''HEAD'' 0 MAX_SAFE_INTEGER False
                MAX_SAFE_INTEGER = Inl ''walk failed'')"
    by (simp add: example_defs)
  from enumeration_failure_fails_run [OF 1 2, of "\<lambda>p. False"] show ?thesis
    by simp
qed

lemma processRequest_readable:
  assumes "read_content env (localFilePath request) = Inr content"
  shows "\<exists>stats. fst (processRequest env request st) = Inr stats \<and> stats File = Some 1"
  by (simp add: processRequest_read_ok [OF assms])

lemma processRequest_document:
  assumes "read_content env (localFilePath request) = Inr content"
  shows "map doc_content (documents_written (batchIndexHelper (snd (processRequest env request st))))
     = map doc_content (documents_written (batchIndexHelper st)) @ [content]"
proof -
  obtain new where n: "batchIndexHelper (snd (snd (index_symbols_and_references env request
        [Symbol \<mapsto> 0, Reference \<mapsto> 0, File \<mapsto> 0] st))) = batchIndexHelper st @ new"
    "documents_written new = []"
    using analysis_calls by blast
  show ?thesis
    by (simp add: processRequest_read_ok [OF assms] helper_index_def n documents_written_append)
qed

lemma process_requests_reads_files:
  assumes "list_all2 (\<lambda>r c. read_content env (localFilePath r) = Inr c) reqs contents"
    and "\<not> cancelled st" and "runStats File = Some m"
  shows "fst (process_requests env (\<lambda>p. False) n k reqs runStats st) File = Some (m + length reqs)
    \<and> run_state (snd (process_requests env (\<lambda>p. False) n k reqs runStats st)) = Completed
    \<and> \<not> cancelled (snd (process_requests env (\<lambda>p. False) n k reqs runStats st))
    \<and> map doc_content (documents_written
          (batchIndexHelper (snd (process_requests env (\<lambda>p. False) n k reqs runStats st))))
        = map doc_content (documents_written (batchIndexHelper st)) @ contents"
  using assms
proof (induction reqs arbitrary: k runStats st m contents)
  case Nil
  then show ?case by simp
next
  case (Cons req rest)
  obtain content others where c: "contents = content # others"
    and r: "read_content env (localFilePath req) = Inr content"
    and rs: "list_all2 (\<lambda>r c. read_content env (localFilePath r) = Inr c) rest others"
    using Cons.prems(1) by (auto simp: list_all2_Cons1)
  obtain stats where s: "fst (processRequest env req st) = Inr stats" "stats File = Some 1"
    using processRequest_readable [OF r] by blast
  obtain st1 where st1: "processRequest env req st = (Inr stats, st1)"
    using s(1) by (cases "processRequest env req st") simp
  have nc: "\<not> cancelled st1"
    using processRequest_state [of env req st] Cons.prems(2) st1 by auto
  have d: "map doc_content (documents_written (batchIndexHelper st1))
      = map doc_content (documents_written (batchIndexHelper st)) @ [content]"
    using processRequest_document [OF r, of st] st1 by simp
  let ?next = "st1\<lparr>reported := reported st1 @ [(Suc k, n)]\<rparr>"
  have step: "process_requests env (\<lambda>p. False) n k (req # rest) runStats st =
      process_requests env (\<lambda>p. False) n (Suc k) rest (aggregateIndexStats runStats stats) ?next"
    using Cons.prems(2) st1 by (simp add: isCancelled_def arrive_def)
  have "aggregateIndexStats runStats stats File = Some (Suc m)"
    using Cons.prems(3) s(2) by (simp add: aggregateIndexStats_def merge_count_def)
  moreover have "\<not> cancelled ?next"
    using nc by simp
  ultimately show ?case
    unfolding step
    using Cons.IH [OF rs, of ?next "aggregateIndexStats runStats stats" "Suc m" "Suc k"]
    by (simp add: c d)
qed

lemma prepareRequests_same_repoUri:
  "repoUri st' = repoUri st \<Longrightarrow> fst (prepareRequests env st') = fst (prepareRequests env st)"
  by (simp add: prepareRequests_def prepareRequests_rethrow_def split: sum.splits prod.splits)

lemma prepareRequests_Inr_state:
  "fst (prepareRequests env st) = Inr reqs \<Longrightarrow> prepareRequests env st = (Inr reqs, st)"
  by (auto simp: prepareRequests_def prepareRequests_rethrow_def split: sum.splits prod.splits)

text \<open>
  Claim C1, as amended. When the analysis request of an item raises or returns nothing
  or an empty result, and the file can be read from the working copy (\<^verbatim>\<open>lstat\<close>
  succeeds, and then \<^verbatim>\<open>readlink\<close> for a link or \<^verbatim>\<open>readFile\<close> otherwise),
  \<open>processRequest\<close> hands the batch helper the Document with the content read, and
  nothing else, and returns the statistics \<open>{Symbol: 0, Reference: 0, File: 1}\<close>. Hence
  a run that is not cancelled, whose schema preparation and enumeration succeed and
  whose files can all be read, completes with \<open>File\<close> equal to the number of requests
  and one Document per request with the content read, whatever the analysis answers.
\<close>

theorem analysis_failure_still_counts_file:
  "(analysis_failed env request st
      \<and> lstat env (req_localRepoPath request @ req_filePath request) = Inr isLink
      \<and> (if isLink then readlink env (req_localRepoPath request @ req_filePath request)
          else readFile env (req_localRepoPath request @ req_filePath request)) = Inr content
      \<longrightarrow>
      fst (processRequest env request st) = Inr [Symbol \<mapsto> 0, Reference \<mapsto> 0, File \<mapsto> 1]
      \<and> calls_during st (snd (processRequest env request st)) =
          [HIndex (DocumentIndexName (req_repoUri request))
             (DocumentBody \<lparr>doc_repoUri = req_repoUri request, doc_path = req_filePath request,
                doc_content = content,
                doc_language = detectLanguage env (req_filePath request) content,
                doc_qnames = []\<rparr>)])
   \<and> (\<not> isCancelled st
      \<and> prepareIndex env (prepareIndexCreationRequests st) = Inr ()
      \<and> fst (prepareRequests env st) = Inr requests
      \<and> list_all2
          (\<lambda>r c. \<exists>link.
             lstat env (req_localRepoPath r @ req_filePath r) = Inr link
             \<and> (if link then readlink env (req_localRepoPath r @ req_filePath r)
                 else readFile env (req_localRepoPath r @ req_filePath r)) = Inr c)
          requests contents
      \<longrightarrow>
      (\<exists>stats. fst (start env (\<lambda>p. False) st) = Inr stats
         \<and> stats File = Some (length requests))
      \<and> run_state (snd (start env (\<lambda>p. False) st)) = Completed
      \<and> map doc_content (documents_written (calls_during st (snd (start env (\<lambda>p. False) st))))
          = contents)"
proof -
  have item: "fst (processRequest env request st) = Inr [Symbol \<mapsto> 0, Reference \<mapsto> 0, File \<mapsto> 1]
      \<and> calls_during st (snd (processRequest env request st)) =
          [HIndex (DocumentIndexName (req_repoUri request))
             (DocumentBody \<lparr>doc_repoUri = req_repoUri request, doc_path = req_filePath request,
                doc_content = content,
                doc_language = detectLanguage env (req_filePath request) content,
                doc_qnames = []\<rparr>)]"
    if f: "analysis_failed env request st"
      and l: "lstat env (req_localRepoPath request @ req_filePath request) = Inr isLink"
      and c: "(if isLink then readlink env (req_localRepoPath request @ req_filePath request)
          else readFile env (req_localRepoPath request @ req_filePath request)) = Inr content"
  proof -
    note r = read_content_ok [OF l c]
    obtain st1 where s: "index_symbols_and_references env request
        [Symbol \<mapsto> 0, Reference \<mapsto> 0, File \<mapsto> 0] st
          = ([Symbol \<mapsto> 0, Reference \<mapsto> 0, File \<mapsto> 0], [], st1)"
        "batchIndexHelper st1 = batchIndexHelper st"
      using analysis_failure [OF f] by blast
    show ?thesis
      by (simp add: processRequest_read_ok [OF r] s helper_index_def calls_during_def)
  qed
  have run: "(\<exists>stats. fst (start env (\<lambda>p. False) st) = Inr stats
         \<and> stats File = Some (length requests))
      \<and> run_state (snd (start env (\<lambda>p. False) st)) = Completed
      \<and> map doc_content (documents_written (calls_during st (snd (start env (\<lambda>p. False) st))))
          = contents"
    if c: "\<not> isCancelled st"
      and p: "prepareIndex env (prepareIndexCreationRequests st) = Inr ()"
      and e: "fst (prepareRequests env st) = Inr requests"
      and r: "list_all2
          (\<lambda>r c. \<exists>link.
             lstat env (req_localRepoPath r @ req_filePath r) = Inr link
             \<and> (if link then readlink env (req_localRepoPath r @ req_filePath r)
                 else readFile env (req_localRepoPath r @ req_filePath r)) = Inr c)
          requests contents"
  proof -
    let ?st2 = "st\<lparr>run_state := EnumeratingRequests\<rparr>"
    let ?st3 = "st\<lparr>run_state := Processing\<rparr>"
    let ?run = "process_requests env (\<lambda>p. False) (length requests) 0 requests
        [Symbol \<mapsto> 0, Reference \<mapsto> 0, File \<mapsto> 0] ?st3"
    have r': "list_all2 (\<lambda>r c. read_content env (localFilePath r) = Inr c) requests contents"
      using r by (rule list_all2_mono) (auto intro: read_content_ok)
    have "fst (prepareRequests env ?st2) = Inr requests"
      using e prepareRequests_same_repoUri [of ?st2 st env] by simp
    then have e2: "prepareRequests env ?st2 = (Inr requests, ?st2)"
      by (rule prepareRequests_Inr_state)
    have p1: "prepareIndex env
        (prepareIndexCreationRequests (st\<lparr>run_state := PreparingIndices\<rparr>)) = Inr ()"
      using p by (simp add: prepareIndexCreationRequests_def)
    have a: "AbstractIndexer_start env (\<lambda>p. False) st = (Inr (fst ?run), snd ?run)"
      by (simp add: AbstractIndexer_start_def arrive_def Let_def p1 e2 split_beta)
    have l: "fst ?run File = Some (0 + length requests) \<and> run_state (snd ?run) = Completed
        \<and> \<not> cancelled (snd ?run)
        \<and> map doc_content (documents_written (batchIndexHelper (snd ?run)))
            = map doc_content (documents_written (batchIndexHelper ?st3)) @ contents"
      using c by (intro process_requests_reads_files r') (simp_all add: isCancelled_def)
    obtain new where n: "batchIndexHelper (snd ?run) = batchIndexHelper st @ new"
      using continues_process_requests [of ?st3 env "\<lambda>p. False" "length requests" 0 requests
          "[Symbol \<mapsto> 0, Reference \<mapsto> 0, File \<mapsto> 0]"]
      by (auto simp: continues_def)
    have "map doc_content (documents_written new) = contents"
      using l by (simp add: n documents_written_append)
    then have "map doc_content (documents_written
        (calls_during st (snd (start env (\<lambda>p. False) st)))) = contents"
      using l by (simp add: start_def a isCancelled_def helper_flush_def calls_during_def n
          documents_written_append)
    then show ?thesis
      using l by (simp add: start_def a isCancelled_def helper_flush_def)
  qed
  from item run show ?thesis by blast
qed

theorem analysis_failure_still_counts_file_witness:
  "fst (processRequest example_env (example_request ''b.ts'') example_indexer)
     = Inr [Symbol \<mapsto> 0, Reference \<mapsto> 0, File \<mapsto> 1]
   \<and> calls_during example_indexer
        (snd (processRequest example_env (example_request ''b.ts'') example_indexer)) =
       [HIndex (DocumentIndexName ''repo'')
          (DocumentBody \<lparr>doc_repoUri = ''repo'', doc_path = ''b.ts'',
             doc_content = ''let x = 1'', doc_language = ''typescript'', doc_qnames = []\<rparr>)]
   \<and> (\<exists>stats. fst (start example_env (\<lambda>p. False) example_indexer) = Inr stats
         \<and> stats File = Some 3)
   \<and> run_state (snd (start example_env (\<lambda>p. False) example_indexer)) = Completed
   \<and> map doc_content (documents_written (calls_during example_indexer
        (snd (start example_env (\<lambda>p. False) example_indexer))))
       = [''let x = 1'', ''let x = 1'', ''a.ts'']"
proof -
  have 1: "analysis_failed example_env (example_request ''b.ts'') example_indexer
      \<and> lstat example_env
          (req_localRepoPath (example_request ''b.ts'') @ req_filePath (example_request ''b.ts''))
          = Inr False
      \<and> (if False
          then readlink example_env
            (req_localRepoPath (example_request ''b.ts'') @ req_filePath (example_request ''b.ts''))
          else readFile example_env
            (req_localRepoPath (example_request ''b.ts'') @ req_filePath (example_request ''b.ts'')))
          = Inr ''let x = 1''"
    by (simp add: analysis_failed_def example_defs)
  have 2: "\<not> isCancelled example_indexer
      \<and> prepareIndex example_env (prepareIndexCreationRequests example_indexer) = Inr ()"
    by (simp add: isCancelled_def prepareIndexCreationRequests_def example_defs)
  have 3: "fst (prepareRequests example_env example_indexer) =
      Inr [example_request ''a.ts'', example_request ''b.ts'', example_request ''link.ts'']"
    by (simp add: prepareRequests_def supported_file_def MAX_SAFE_INTEGER_def example_defs)
  have 4: "list_all2
          (\<lambda>r c. \<exists>link.
             lstat example_env (req_localRepoPath r @ req_filePath r) = Inr link
             \<and> (if link then readlink example_env (req_localRepoPath r @ req_filePath r)
                 else readFile example_env (req_localRepoPath r @ req_filePath r)) = Inr c)
          [example_request ''a.ts'', example_request ''b.ts'', example_request ''link.ts'']
          [''let x = 1'', ''let x = 1'', ''a.ts'']"
    by (auto simp: example_defs)
  have 5: "req_repoUri (example_request ''b.ts'') = ''repo''
      \<and> req_filePath (example_request ''b.ts'') = ''b.ts''
      \<and> detectLanguage example_env ''b.ts'' ''let x = 1'' = ''typescript''"
    by (simp add: example_defs)
  from analysis_failure_still_counts_file [where env = example_env and request = "example_request ''b.ts''"
      and st = example_indexer and content = "''let x = 1''" and isLink = False
      and requests = "[example_request ''a.ts'', example_request ''b.ts'',
        example_request ''link.ts'']"
      and contents = "[''let x = 1'', ''let x = 1'', ''a.ts'']"] 1 2 3 4 5
  show ?thesis
    by (simp add: numeral_3_eq_3)
qed

text \<open>
  Claim C1 as stated fails: when the analysis of \<open>b.ts\<close> fails and \<open>b.ts\<close> cannot be read,
  \<open>processRequest\<close> raises and writes nothing, and the run over the three files
  completes with \<open>File\<close> equal to two.
\<close>

theorem analysis_failure_unreadable_file:
  "analysis_failed unreadable_env (example_request ''b.ts'') example_indexer
   \<and> fst (processRequest unreadable_env (example_request ''b.ts'') example_indexer)
       = Inl ''ENOENT''
   \<and> calls_during example_indexer
        (snd (processRequest unreadable_env (example_request ''b.ts'') example_indexer)) = []
   \<and> fst (prepareRequests unreadable_env example_indexer) =
       Inr [example_request ''a.ts'', example_request ''b.ts'', example_request ''link.ts'']
   \<and> file_count (fst (start unreadable_env no_cancel example_indexer)) = Some 2
   \<and> run_state (snd (start unreadable_env no_cancel example_indexer)) = Completed"
  by (simp add: analysis_failed_def calls_during_def file_count_def unreadable_env_def
      no_cancel_def run_defs example_defs numeral_2_eq_2)

end
